theory Spec2Isabelle
  imports Main
begin

section \<open>Python strings\<close>

text \<open>
  \<^verbatim>\<open>s.startswith(p)\<close> and \<^verbatim>\<open>s.endswith(p)\<close> on Python strings, the subject first
  as in the source. Strings are character lists.
\<close>

fun startswith :: "string \<Rightarrow> string \<Rightarrow> bool" where
  "startswith s [] = True"
| "startswith [] (p # ps) = False"
| "startswith (c # cs) (p # ps) = (c = p \<and> startswith cs ps)"

definition endswith :: "string \<Rightarrow> string \<Rightarrow> bool" where
  "endswith s p = startswith (rev s) (rev p)"

section \<open>Experiments and the fetcher contract\<close>

text \<open>
  The module \<^verbatim>\<open>experiment.py\<close> (imported as \<^verbatim>\<open>hip\<close>) is a collaborator of
  \<^verbatim>\<open>fetchers.py\<close>. Its data is modelled here as far as the dispatch mechanism reads it.

  Modelled from the spec: the classes \<^verbatim>\<open>Datapoint\<close> and \<^verbatim>\<open>Experiment\<close> of
  \<^verbatim>\<open>experiment.py\<close>. A datapoint has a uid, a mapping from field names to
  values (numeric, string or missing) and an optional lineage pointer \<^verbatim>\<open>from_uid\<close>;
  an experiment is an ordered collection of datapoints. A uid is either the string a loader
  gave it, or such a uid namespaced by the key of the sub-source it was merged from.
\<close>

datatype uid = Uid string | Namespaced string uid

datatype val = Num int | Str string | Missing

record Datapoint =
  uid :: uid
  "values" :: "(string \<times> val) list"
  from_uid :: "uid option"

record Experiment =
  datapoints :: "Datapoint list"

text \<open>
  Every exception of the source is a value. \<^verbatim>\<open>ExperimentFetcherDoesntApply\<close> is the
  non-applicability signal and carries an optional message; \<^verbatim>\<open>NoFetcherFound\<close>
  carries the uri. The others are the failures that the standard library raises in the
  modelled functions; \<open>OtherError\<close> stands for any further failure of a loader.
\<close>

datatype error =
    ExperimentFetcherDoesntApply "string option"
  | NoFetcherFound string
  | JSONDecodeError
  | AttributeError
  | RecursionError
  | FileNotFoundError
  | ModuleNotFoundError
  | OtherError string

text \<open>
  A fetcher is called with a uri. It reads files and may have other effects, so it takes
  the state of the world \<open>'s\<close> and returns the state it leaves, together with the
  experiment it produced or the exception it raised.
\<close>

type_synonym 's outcome = "(error + Experiment) \<times> 's"

type_synonym 's fetcher = "string \<Rightarrow> 's \<Rightarrow> 's outcome"

section \<open>The dispatcher\<close>

text \<open>
  \<^verbatim>\<open>
  def load_xp_with_fetchers(fetchers, uri):
      for f in fetchers:
          try:
              return f(uri)
          except hip.ExperimentFetcherDoesntApply:
              continue
      raise NoFetcherFound(uri)
  \<close>
\<close>

fun load_xp_with_fetchers :: "'s fetcher list \<Rightarrow> string \<Rightarrow> 's \<Rightarrow> 's outcome" where
  "load_xp_with_fetchers [] uri s = (Inl (NoFetcherFound uri), s)"
| "load_xp_with_fetchers (f # fetchers) uri s =
     (case f uri s of
        (Inl (ExperimentFetcherDoesntApply msg), s') \<Rightarrow> load_xp_with_fetchers fetchers uri s'
      | (Inl e, s') \<Rightarrow> (Inl e, s')
      | (Inr xp, s') \<Rightarrow> (Inr xp, s'))"

text \<open>
  \<open>declined fs uri s\<close> calls the loaders of \<open>fs\<close> in order, from the state \<open>s\<close>, as long
  as each one signals non-applicability. It is the state they leave when all of them
  decline, and \<open>None\<close> when one of them returns or fails otherwise.
\<close>

fun declined :: "'s fetcher list \<Rightarrow> string \<Rightarrow> 's \<Rightarrow> 's option" where
  "declined [] uri s = Some s"
| "declined (f # fs) uri s =
     (case f uri s of
        (Inl (ExperimentFetcherDoesntApply msg), s') \<Rightarrow> declined fs uri s'
      | (Inl e, s') \<Rightarrow> None
      | (Inr xp, s') \<Rightarrow> None)"

definition is_hard :: "error \<Rightarrow> bool" where
  "is_hard e = (case e of ExperimentFetcherDoesntApply msg \<Rightarrow> False | _ \<Rightarrow> True)"

section \<open>Dictionaries\<close>

text \<open>
  A Python \<^verbatim>\<open>dict\<close> keeps its keys in insertion order: a list of pairs with pairwise
  distinct keys. \<^verbatim>\<open>d[k] = v\<close> replaces the value of a key that is present, at its
  position, and appends a new key at the end.
\<close>

fun dict_set :: "('k \<times> 'v) list \<Rightarrow> 'k \<Rightarrow> 'v \<Rightarrow> ('k \<times> 'v) list" where
  "dict_set [] k v = [(k, v)]"
| "dict_set ((k', v') # d) k v =
     (if k' = k then (k', v) # d else (k', v') # dict_set d k v)"

section \<open>Merging experiments\<close>

text \<open>
  Modelled from the spec: \<^verbatim>\<open>Experiment.merge\<close> of \<^verbatim>\<open>experiment.py\<close>, which takes
  a mapping from keys to experiments. The merged experiment holds the datapoints of all
  the sub-experiments, each namespaced by the key it came from; a lineage pointer is
  namespaced by the same key, so it stays within its sub-source.
\<close>

definition namespace :: "string \<Rightarrow> Datapoint \<Rightarrow> Datapoint" where
  "namespace k dp =
     dp\<lparr>uid := Namespaced k (uid dp), from_uid := map_option (Namespaced k) (from_uid dp)\<rparr>"

definition merge :: "(string \<times> Experiment) list \<Rightarrow> Experiment" where
  "merge xp_dict =
     \<lparr>datapoints = concat (map (\<lambda>(k, xp). map (namespace k) (datapoints xp)) xp_dict)\<rparr>"

section \<open>The multi-source fetcher\<close>

text \<open>
  \<^verbatim>\<open>json.loads\<close> belongs to the standard library and is a parameter of the model:
  \<open>None\<close> is a payload that it rejects (it raises \<^verbatim>\<open>JSONDecodeError\<close>). Of the value
  it returns, \<^verbatim>\<open>MultipleFetcher.__call__\<close> distinguishes a list, a dict (here the list
  of its items, in the order of the dict) and anything else. The entries of the list and
  the values of the dict are passed on as uris and are strings, as the annotation
  \<^verbatim>\<open>uri: str\<close> of the fetchers has them.
\<close>

datatype json = JList "string list" | JDict "(string \<times> string) list" | JOther

definition MULTI_PREFIX :: string where
  "MULTI_PREFIX = ''multi://''"

text \<open>
  The dict comprehensions \<^verbatim>\<open>{v: load(v) for v in defs}\<close> and
  \<^verbatim>\<open>{k: load(v) for k, v in defs.items()}\<close>: for each entry in order the value is
  computed, which may raise, and stored under the key.
\<close>

fun dictcomp :: "'s fetcher \<Rightarrow> (string \<times> string) list \<Rightarrow> (string \<times> Experiment) list \<Rightarrow> 's
    \<Rightarrow> (error + (string \<times> Experiment) list) \<times> 's" where
  "dictcomp load [] d s = (Inr d, s)"
| "dictcomp load ((k, v) # kvs) d s =
     (case load v s of
        (Inl e, s') \<Rightarrow> (Inl e, s')
      | (Inr xp, s') \<Rightarrow> dictcomp load kvs (dict_set d k xp) s')"

text \<open>
  \<^verbatim>\<open>
  def __call__(self, uri):
      if not uri.startswith(self.MULTI_PREFIX):
          raise hip.ExperimentFetcherDoesntApply()
      defs = json.loads(uri[len(self.MULTI_PREFIX):])
      if isinstance(defs, list):
          return hip.Experiment.merge({v: load_xp_with_fetchers(self.fetchers, v) for v in defs})
      return hip.Experiment.merge(
          {k: load_xp_with_fetchers(self.fetchers, v) for k, v in defs.items()})
  \<close>
  The body of \<^verbatim>\<open>__call__\<close>, with \<open>load\<close> for
  \<^verbatim>\<open>load_xp_with_fetchers(self.fetchers, _)\<close>. A value that is neither a list nor a dict
  has no \<^verbatim>\<open>items\<close>: \<^verbatim>\<open>AttributeError\<close>.
\<close>

definition call_body :: "(string \<Rightarrow> json option) \<Rightarrow> 's fetcher \<Rightarrow> string \<Rightarrow> 's \<Rightarrow> 's outcome" where
  "call_body json_loads load uri s =
     (if \<not> startswith uri MULTI_PREFIX then (Inl (ExperimentFetcherDoesntApply None), s)
      else case json_loads (drop (length MULTI_PREFIX) uri) of
        None \<Rightarrow> (Inl JSONDecodeError, s)
      | Some (JList defs) \<Rightarrow>
          (case dictcomp load (map (\<lambda>v. (v, v)) defs) [] s of
             (Inl e, s') \<Rightarrow> (Inl e, s')
           | (Inr d, s') \<Rightarrow> (Inr (merge d), s'))
      | Some (JDict items) \<Rightarrow>
          (case dictcomp load items [] s of
             (Inl e, s') \<Rightarrow> (Inl e, s')
           | (Inr d, s') \<Rightarrow> (Inr (merge d), s'))
      | Some JOther \<Rightarrow> (Inl AttributeError, s))"

text \<open>
  \<^verbatim>\<open>
  def __init__(self, fetchers):
      self.fetchers = fetchers + [self]
  \<close>
  The object is one of its own fetchers, so \<^verbatim>\<open>__call__\<close> re-enters itself through
  \<^verbatim>\<open>load_xp_with_fetchers\<close> for a nested composite uri. The interpreter bounds the
  depth of calls: the first argument is the number of nested re-entries that the stack
  still allows, and resolving a sub-uri beyond it raises \<^verbatim>\<open>RecursionError\<close>.
  \<open>MultipleFetcher_call limit json_loads fetchers\<close> is the object built by
  \<^verbatim>\<open>MultipleFetcher(fetchers)\<close>, as a fetcher.
\<close>

primrec MultipleFetcher_call ::
    "nat \<Rightarrow> (string \<Rightarrow> json option) \<Rightarrow> 's fetcher list \<Rightarrow> 's fetcher" where
  "MultipleFetcher_call 0 json_loads fetchers =
     call_body json_loads (\<lambda>v s. (Inl RecursionError, s))"
| "MultipleFetcher_call (Suc limit) json_loads fetchers =
     call_body json_loads
       (load_xp_with_fetchers (fetchers @ [MultipleFetcher_call limit json_loads fetchers]))"

definition MultipleFetcher_fetchers ::
    "nat \<Rightarrow> (string \<Rightarrow> json option) \<Rightarrow> 's fetcher list \<Rightarrow> 's fetcher list" where
  "MultipleFetcher_fetchers limit json_loads fetchers =
     fetchers @ [MultipleFetcher_call limit json_loads fetchers]"

section \<open>The built-in loaders\<close>

text \<open>
  What the loaders read, parse and import belongs to the standard library, to
  \<^verbatim>\<open>experiment.py\<close> or to \<^verbatim>\<open>fetchers_demo.py\<close>. The record \<open>env\<close> holds these
  collaborators as parameters of the model, over the state of the world \<open>'s\<close> and the type
  \<open>'m\<close> of module objects:
  \<^item> \<open>README_DEMOS\<close>: the registry of demo factories, by uri;
  \<^item> \<open>open_file s path\<close>: the text of the file that \<^verbatim>\<open>open(path)\<close> gives in the state \<open>s\<close>,
    or the exception that \<^verbatim>\<open>open\<close> raises;
  \<^item> \<open>from_csv\<close>: \<^verbatim>\<open>hip.Experiment.from_iterable(csv.DictReader(csvfile))\<close> on that text;
  \<^item> \<open>json_file\<close>, \<open>fairseq_log\<close>, \<open>w2l_dir\<close>: what \<^verbatim>\<open>load_json\<close>, \<^verbatim>\<open>load_fairseq\<close>
    and \<^verbatim>\<open>Wav2letterLoader.__call__\<close> do once the uri has passed their gate;
  \<^item> \<open>import_module\<close>: \<^verbatim>\<open>importlib.import_module\<close>, which runs the code of the module;
  \<^item> \<open>exec_file name path\<close>: \<^verbatim>\<open>spec_from_file_location(name, path)\<close>,
    \<^verbatim>\<open>module_from_spec\<close> and \<^verbatim>\<open>exec_module\<close>, giving the module;
  \<^item> \<open>cwd_path s file\<close>: \<^verbatim>\<open>str(Path(os.getcwd()) / file)\<close> in the state \<open>s\<close>;
  \<^item> \<open>getattr m name\<close>: the attribute of the module, \<open>None\<close> when it has none of this name.
\<close>

record ('s, 'm) env =
  README_DEMOS :: "string \<Rightarrow> ('s \<Rightarrow> 's outcome) option"
  open_file :: "'s \<Rightarrow> string \<Rightarrow> error + string"
  from_csv :: "string \<Rightarrow> error + Experiment"
  json_file :: "'s fetcher"
  fairseq_log :: "'s fetcher"
  w2l_dir :: "'s fetcher"
  import_module :: "string \<Rightarrow> 's \<Rightarrow> (error + 'm) \<times> 's"
  exec_file :: "string \<Rightarrow> string \<Rightarrow> 's \<Rightarrow> (error + 'm) \<times> 's"
  cwd_path :: "'s \<Rightarrow> string \<Rightarrow> string"
  getattr :: "'m \<Rightarrow> string \<Rightarrow> 's fetcher option"

text \<open>
  \<^verbatim>\<open>
  def load_demo(uri):
      if uri in README_DEMOS:
          return README_DEMOS[uri]()
      raise hip.ExperimentFetcherDoesntApply()
  \<close>
\<close>

definition load_demo :: "('s, 'm) env \<Rightarrow> 's fetcher" where
  "load_demo env uri s =
     (case README_DEMOS env uri of
        Some demo \<Rightarrow> demo s
      | None \<Rightarrow> (Inl (ExperimentFetcherDoesntApply None), s))"

text \<open>
  \<^verbatim>\<open>
  def load_csv(uri):
      if not uri.endswith(".csv"):
          raise hip.ExperimentFetcherDoesntApply(f"Not a CSV file: {uri}")
      try:
          with open(uri, newline="") as csvfile:
              return hip.Experiment.from_iterable(csv.DictReader(csvfile))
      except FileNotFoundError:
          raise hip.ExperimentFetcherDoesntApply(f"No such file: {uri}")
  \<close>
  The \<^verbatim>\<open>try\<close> covers both the opening and the parsing.
\<close>

definition load_csv :: "('s, 'm) env \<Rightarrow> 's fetcher" where
  "load_csv env uri s =
     (if \<not> endswith uri ''.csv''
      then (Inl (ExperimentFetcherDoesntApply (Some (''Not a CSV file: '' @ uri))), s)
      else case (case open_file env s uri of
                   Inl e \<Rightarrow> Inl e
                 | Inr csvfile \<Rightarrow> from_csv env csvfile) of
        Inl FileNotFoundError \<Rightarrow>
          (Inl (ExperimentFetcherDoesntApply (Some (''No such file: '' @ uri))), s)
      | Inl e \<Rightarrow> (Inl e, s)
      | Inr xp \<Rightarrow> (Inr xp, s))"

text \<open>
  The other three built-in loaders, up to their gate. What they parse is outside the
  dispatch mechanism and stays a parameter.
\<close>

definition load_json :: "('s, 'm) env \<Rightarrow> 's fetcher" where
  "load_json env uri s =
     (if \<not> endswith uri ''.json''
      then (Inl (ExperimentFetcherDoesntApply (Some (''Not a JSON file: '' @ uri))), s)
      else json_file env uri s)"

definition load_fairseq :: "('s, 'm) env \<Rightarrow> 's fetcher" where
  "load_fairseq env uri s =
     (if \<not> startswith uri ''fairseq://''
      then (Inl (ExperimentFetcherDoesntApply None), s)
      else fairseq_log env (drop (length ''fairseq://'') uri) s)"

definition load_wav2letter :: "('s, 'm) env \<Rightarrow> 's fetcher" where
  "load_wav2letter env uri s =
     (if \<not> startswith uri ''w2l://''
      then (Inl (ExperimentFetcherDoesntApply None), s)
      else w2l_dir env (drop (length ''w2l://'') uri) s)"

section \<open>List objects and the instance of MultipleFetcher\<close>

text \<open>
  A Python list is an object: two names may denote the same list, and
  \<^verbatim>\<open>append\<close> changes it for both. The heap maps the address of a list object to its
  elements and the address of a \<^verbatim>\<open>MultipleFetcher\<close> instance to the address of the list
  in its attribute \<^verbatim>\<open>fetchers\<close>. An element of a loader list is a function or such an
  instance. Addresses are allocated in increasing order from \<open>next_addr\<close>.
\<close>

type_synonym addr = nat

datatype 's pyvalue = Fn "'s fetcher" | Obj addr

record 's heap =
  list_at :: "addr \<Rightarrow> 's pyvalue list option"
  fetchers_of :: "addr \<Rightarrow> addr option"
  next_addr :: addr

definition read_list :: "'s heap \<Rightarrow> addr \<Rightarrow> 's pyvalue list" where
  "read_list h a = (case list_at h a of Some xs \<Rightarrow> xs | None \<Rightarrow> [])"

definition new_list :: "'s heap \<Rightarrow> 's pyvalue list \<Rightarrow> addr \<times> 's heap" where
  "new_list h xs =
     (next_addr h, h\<lparr>list_at := (list_at h)(next_addr h \<mapsto> xs), next_addr := Suc (next_addr h)\<rparr>)"

definition list_append :: "'s heap \<Rightarrow> addr \<Rightarrow> 's pyvalue \<Rightarrow> 's heap" where
  "list_append h a v = h\<lparr>list_at := (list_at h)(a \<mapsto> read_list h a @ [v])\<rparr>"

text \<open>
  \<^verbatim>\<open>
  def __init__(self, fetchers):
      self.fetchers = fetchers + [self]
  \<close>
  \<^verbatim>\<open>MultipleFetcher(fetchers)\<close> allocates the instance, then the list \<^verbatim>\<open>[self]\<close>, then
  the list \<^verbatim>\<open>fetchers + [self]\<close>, which is a new object, and stores the address of the
  latter in the attribute. It returns the instance.
\<close>

definition MultipleFetcher_init :: "'s heap \<Rightarrow> addr \<Rightarrow> addr \<times> 's heap" where
  "MultipleFetcher_init h fetchers =
     (let self = next_addr h;
          h0 = h\<lparr>next_addr := Suc (next_addr h)\<rparr>;
          (single, h1) = new_list h0 [Obj self];
          (both, h2) = new_list h1 (read_list h1 fetchers @ read_list h1 single)
      in (self, h2\<lparr>fetchers_of := (fetchers_of h2)(self \<mapsto> both)\<rparr>))"

text \<open>
  Calling an element of a loader list. A function is applied; for an instance,
  \<^verbatim>\<open>__call__\<close> reads the list \<^verbatim>\<open>self.fetchers\<close> from the heap and dispatches the
  sub-uris through its elements. The first argument bounds the nested re-entries, as for
  \<open>MultipleFetcher_call\<close>.
\<close>

primrec call :: "nat \<Rightarrow> (string \<Rightarrow> json option) \<Rightarrow> 's heap \<Rightarrow> 's pyvalue \<Rightarrow> 's fetcher" where
  "call 0 json_loads h v =
     (case v of
        Fn f \<Rightarrow> f
      | Obj self \<Rightarrow> call_body json_loads (\<lambda>v s. (Inl RecursionError, s)))"
| "call (Suc limit) json_loads h v =
     (case v of
        Fn f \<Rightarrow> f
      | Obj self \<Rightarrow>
          call_body json_loads
            (load_xp_with_fetchers
               (map (call limit json_loads h)
                  (case fetchers_of h self of Some l \<Rightarrow> read_list h l | None \<Rightarrow> []))))"

section \<open>The registry builder\<close>

text \<open>
  \<^verbatim>\<open>fetcher_spec.split(".")\<close> and \<^verbatim>\<open>".".join(parts[:-1])\<close>: splitting at a separator
  character gives at least one part.
\<close>

fun str_split :: "string \<Rightarrow> char \<Rightarrow> string list" where
  "str_split [] sep = [[]]"
| "str_split (c # cs) sep =
     (if c = sep then [] # str_split cs sep
      else (case str_split cs sep of
              p # ps \<Rightarrow> (c # p) # ps
            | [] \<Rightarrow> [[c]]))"

fun str_join :: "string \<Rightarrow> string list \<Rightarrow> string" where
  "str_join sep [] = []"
| "str_join sep [p] = p"
| "str_join sep (p # q # ps) = p @ sep @ str_join sep (q # ps)"

text \<open>
  \<^verbatim>\<open>
  def _get_module_by_name_in_cwd(name):
      spec = importlib.util.spec_from_file_location(name, str(Path(os.getcwd()) / f"{name}.py"))
      module = importlib.util.module_from_spec(spec)
      spec.loader.exec_module(module)
      return module
  \<close>
\<close>

definition get_module_by_name_in_cwd :: "('s, 'm) env \<Rightarrow> string \<Rightarrow> 's \<Rightarrow> (error + 'm) \<times> 's" where
  "get_module_by_name_in_cwd env name s = exec_file env name (cwd_path env s (name @ ''.py'')) s"

text \<open>
  The \<^verbatim>\<open>try\<close> statement of the loop of \<^verbatim>\<open>get_fetchers\<close>:
  \<^verbatim>\<open>
  try:
      module = importlib.import_module(".".join(parts[:-1]))
  except ModuleNotFoundError:
      if len(parts) != 2:
          raise
      module = _get_module_by_name_in_cwd(parts[0])
  \<close>
\<close>

definition find_module :: "('s, 'm) env \<Rightarrow> string list \<Rightarrow> 's \<Rightarrow> (error + 'm) \<times> 's" where
  "find_module env parts s =
     (case import_module env (str_join ''.'' (butlast parts)) s of
        (Inl ModuleNotFoundError, s') \<Rightarrow>
          (if length parts \<noteq> 2 then (Inl ModuleNotFoundError, s')
           else get_module_by_name_in_cwd env (parts ! 0) s')
      | (Inl e, s') \<Rightarrow> (Inl e, s')
      | (Inr m, s') \<Rightarrow> (Inr m, s'))"

text \<open>
  \<^verbatim>\<open>
  def get_fetchers(add_fetchers):
      xp_fetchers = [load_demo, load_csv, load_json, load_fairseq, load_wav2letter]
      for fetcher_spec in add_fetchers:
          parts = fetcher_spec.split(".")
          try: ...
          fetcher = getattr(module, parts[-1])
          xp_fetchers.append(fetcher)
      xp_fetchers.append(MultipleFetcher(xp_fetchers))
      return xp_fetchers
  \<close>
  The loop works on the list object at the address \<open>xp_fetchers\<close>.
\<close>

fun get_fetchers_loop ::
    "('s, 'm) env \<Rightarrow> addr \<Rightarrow> string list \<Rightarrow> 's heap \<Rightarrow> 's \<Rightarrow> (error + unit) \<times> 's heap \<times> 's" where
  "get_fetchers_loop env xp_fetchers [] h s = (Inr (), h, s)"
| "get_fetchers_loop env xp_fetchers (fetcher_spec # add_fetchers) h s =
     (let parts = str_split fetcher_spec CHR ''.'' in
      case find_module env parts s of
        (Inl e, s') \<Rightarrow> (Inl e, h, s')
      | (Inr m, s') \<Rightarrow>
          (case getattr env m (last parts) of
             None \<Rightarrow> (Inl AttributeError, h, s')
           | Some fetcher \<Rightarrow>
               get_fetchers_loop env xp_fetchers add_fetchers
                 (list_append h xp_fetchers (Fn fetcher)) s'))"

definition builtin_fetchers :: "('s, 'm) env \<Rightarrow> 's fetcher list" where
  "builtin_fetchers env =
     [load_demo env, load_csv env, load_json env, load_fairseq env, load_wav2letter env]"

definition get_fetchers ::
    "('s, 'm) env \<Rightarrow> string list \<Rightarrow> 's heap \<Rightarrow> 's \<Rightarrow> (error + addr) \<times> 's heap \<times> 's" where
  "get_fetchers env add_fetchers h s =
     (let (xp_fetchers, h1) = new_list h (map Fn (builtin_fetchers env)) in
      case get_fetchers_loop env xp_fetchers add_fetchers h1 s of
        (Inl e, h2, s') \<Rightarrow> (Inl e, h2, s')
      | (Inr u, h2, s') \<Rightarrow>
          (let (self, h3) = MultipleFetcher_init h2 xp_fetchers
           in (Inr xp_fetchers, list_append h3 xp_fetchers (Obj self), s')))"

section \<open>Auxiliary notions for the statements\<close>

text \<open>A stub loader with call instrumentation: it logs its name and the uri it was given.\<close>

definition stub :: "string \<Rightarrow> (string \<Rightarrow> error + Experiment) \<Rightarrow> ((string \<times> string) list) fetcher" where
  "stub name f uri log = (f uri, log @ [(name, uri)])"

text \<open>
  \<open>resolve_all load vs s\<close> resolves the sub-uris \<open>vs\<close> one after the other from the state
  \<open>s\<close> and collects the experiments; the first failure ends it.
\<close>

fun resolve_all :: "'s fetcher \<Rightarrow> string list \<Rightarrow> 's \<Rightarrow> (error + Experiment list) \<times> 's" where
  "resolve_all load [] s = (Inr [], s)"
| "resolve_all load (v # vs) s =
     (case load v s of
        (Inl e, s') \<Rightarrow> (Inl e, s')
      | (Inr xp, s') \<Rightarrow>
          (case resolve_all load vs s' of
             (Inl e, s'') \<Rightarrow> (Inl e, s'')
           | (Inr xps, s'') \<Rightarrow> (Inr (xp # xps), s'')))"

text \<open>The dict that storing the pairs in order builds, from the dict \<open>d\<close>.\<close>

definition dict_of :: "('k \<times> 'v) list \<Rightarrow> ('k \<times> 'v) list \<Rightarrow> ('k \<times> 'v) list" where
  "dict_of kvs d = fold (\<lambda>(k, v) d. dict_set d k v) kvs d"

text \<open>The entries of a parsed payload, as the pairs of key and sub-uri that are resolved.\<close>

fun sub_sources :: "json \<Rightarrow> (string \<times> string) list" where
  "sub_sources (JList defs) = map (\<lambda>v. (v, v)) defs"
| "sub_sources (JDict items) = items"
| "sub_sources JOther = []"

text \<open>
  The datapoints of a merged experiment that lie in the namespace of a key, and a datapoint
  with the outermost namespace taken off again.
\<close>

fun strip_uid :: "uid \<Rightarrow> uid" where
  "strip_uid (Namespaced k u) = u"
| "strip_uid (Uid x) = Uid x"

definition strip_namespace :: "Datapoint \<Rightarrow> Datapoint" where
  "strip_namespace dp =
     dp\<lparr>uid := strip_uid (uid dp), from_uid := map_option strip_uid (from_uid dp)\<rparr>"

definition in_namespace :: "string \<Rightarrow> Experiment \<Rightarrow> Datapoint list" where
  "in_namespace k xp =
     filter (\<lambda>dp. case uid dp of Namespaced k' u \<Rightarrow> k' = k | Uid x \<Rightarrow> False) (datapoints xp)"


section \<open>Fixtures for the concrete instances\<close>

text \<open>A JSON string literal without escapes: the text between double quotes.\<close>

definition quoted :: "string \<Rightarrow> string" where
  "quoted s = CHR 0x22 # s @ [CHR 0x22]"

definition sample_xp :: Experiment where
  "sample_xp = \<lparr>datapoints = [\<lparr>uid = Uid ''1'', values = [(''loss'', Num 3)], from_uid = None\<rparr>,
                       \<lparr>uid = Uid ''2'', values = [(''loss'', Num 2)], from_uid = Some (Uid ''1'')\<rparr>]\<rparr>"

definition multi_a :: string where
  "multi_a = ''multi://['' @ quoted ''a'' @ '']''"

definition payloads :: "string \<Rightarrow> json option" where
  "payloads = map_of
     [(''['' @ quoted ''a'' @ '']'', JList [''a'']),
      (''['' @ quoted ''a'' @ '','' @ quoted ''a'' @ '']'', JList [''a'', ''a'']),
      (''['' @ quoted ''a'' @ '','' @ quoted ''b'' @ '','' @ quoted ''c'' @ '']'',
         JList [''a'', ''b'', ''c'']),
      (''{'' @ quoted ''x'' @ '':'' @ quoted ''a'' @ '','' @ quoted ''y'' @ '':'' @ quoted ''a'' @ ''}'',
         JDict [(''x'', ''a''), (''y'', ''a'')]),
      (''['' @ quoted (''multi://['' @ [CHR 0x5C, CHR 0x22] @ ''a'' @ [CHR 0x5C, CHR 0x22] @ '']'')
          @ '','' @ quoted ''c'' @ '']'',
         JList [multi_a, ''c'']),
      (''3'', JOther)]"

definition loaders :: "((string \<times> string) list) fetcher list" where
  "loaders =
     [stub ''demo'' (\<lambda>u. Inl (ExperimentFetcherDoesntApply None)),
      stub ''csv'' (\<lambda>u. if u = ''a'' \<or> u = ''c'' then Inr sample_xp
                      else if u = ''b'' then Inl (OtherError ''bad file'')
                      else Inl (ExperimentFetcherDoesntApply (Some (''Not a CSV file: '' @ u))))]"


text \<open>
  An environment over a file system (a map from paths to texts) as the state. The module
  \<^verbatim>\<open>mymodule\<close> can be imported and has the attribute \<^verbatim>\<open>myloader\<close>; a script
  exists when its path is a file. Module objects are identified by their name.
\<close>

definition files_env :: "(string \<Rightarrow> string option, string) env" where
  "files_env =
     \<lparr>README_DEMOS = Map.empty,
      open_file = (\<lambda>files path. case files path of None \<Rightarrow> Inl FileNotFoundError | Some text \<Rightarrow> Inr text),
      from_csv = (\<lambda>text. if text = [] then Inl (OtherError ''empty'') else Inr sample_xp),
      json_file = (\<lambda>uri s. (Inl (OtherError ''json''), s)),
      fairseq_log = (\<lambda>uri s. (Inl (OtherError ''fairseq''), s)),
      w2l_dir = (\<lambda>uri s. (Inl (OtherError ''w2l''), s)),
      import_module = (\<lambda>name s. (if name = ''mymodule'' then Inr ''mymodule''
                                   else Inl ModuleNotFoundError, s)),
      exec_file = (\<lambda>name path files. (case files path of None \<Rightarrow> Inl FileNotFoundError
                                       | Some text \<Rightarrow> Inr name, files)),
      cwd_path = (\<lambda>s file. ''/home/'' @ file),
      getattr = (\<lambda>m name. if name = ''myloader''
                           then Some (\<lambda>uri s. (Inl (ExperimentFetcherDoesntApply None), s))
                           else None)\<rparr>"

definition empty_heap :: "'s heap" where
  "empty_heap = \<lparr>list_at = (\<lambda>a. None), fetchers_of = (\<lambda>a. None), next_addr = 0\<rparr>"

text \<open>
  A heap with one list of loaders, the heap after \<^verbatim>\<open>MultipleFetcher\<close> has been built
  over that list, and the registry that \<^verbatim>\<open>get_fetchers\<close> builds for one specification.
\<close>

definition heap_two :: "((string \<times> string) list) heap" where
  "heap_two = snd (new_list empty_heap (map Fn loaders))"

definition heap_mf :: "((string \<times> string) list) heap" where
  "heap_mf = snd (MultipleFetcher_init heap_two 0)"

definition registry :: "(error + addr) \<times> (string \<Rightarrow> string option) heap \<times> (string \<Rightarrow> string option)" where
  "registry = get_fetchers files_env [''mymodule.myloader''] empty_heap Map.empty"


section \<open>Properties of the dispatcher\<close>

lemma declined_append:
  "declined fs uri s = Some s' \<Longrightarrow>
   load_xp_with_fetchers (fs @ gs) uri s = load_xp_with_fetchers gs uri s'"
proof (induction fs arbitrary: s)
  case Nil
  then show ?case by simp
next
  case (Cons f fs)
  then show ?case
    by (auto split: prod.splits sum.splits error.splits)
qed

lemma load_xp_with_fetchers_at:
  assumes "i < length L" and "declined (take i L) uri s = Some s1"
  shows "load_xp_with_fetchers L uri s = load_xp_with_fetchers ((L ! i) # drop (Suc i) L) uri s1"
proof -
  have "L = take i L @ (L ! i) # drop (Suc i) L"
    using assms(1) by (simp add: id_take_nth_drop)
  then have "load_xp_with_fetchers L uri s
      = load_xp_with_fetchers (take i L @ (L ! i) # drop (Suc i) L) uri s"
    by simp
  also have "\<dots> = load_xp_with_fetchers ((L ! i) # drop (Suc i) L) uri s1"
    using assms(2) by (rule declined_append)
  finally show ?thesis .
qed

text \<open>
  C1 (first match wins). When every loader before position \<open>i\<close> signals non-applicability
  and the loader at position \<open>i\<close> returns an experiment, the dispatcher returns exactly that
  experiment and the state that loader left: no later loader has run. The same holds
  whatever loaders \<open>L'\<close> follow position \<open>i\<close>.
\<close>

theorem first_match_wins:
  assumes "i < length L"
    and "declined (take i L) uri s = Some s1"
    and "(L ! i) uri s1 = (Inr xp, s2)"
  shows "load_xp_with_fetchers L uri s = (Inr xp, s2)
    \<and> (\<forall>L'. load_xp_with_fetchers (take i L @ (L ! i) # L') uri s = (Inr xp, s2))"
proof
  show "load_xp_with_fetchers L uri s = (Inr xp, s2)"
    using load_xp_with_fetchers_at [OF assms(1,2)] assms(3) by simp
next
  show "\<forall>L'. load_xp_with_fetchers (take i L @ (L ! i) # L') uri s = (Inr xp, s2)"
    using declined_append [OF assms(2)] assms(3) by simp
qed

theorem first_match_wins_witness:
  "load_xp_with_fetchers
     [stub ''csv'' (\<lambda>u. Inl (ExperimentFetcherDoesntApply None)),
      stub ''json'' (\<lambda>u. Inr \<lparr>datapoints = []\<rparr>),
      stub ''log'' (\<lambda>u. Inr \<lparr>datapoints = [\<lparr>uid = Uid ''1'', values = [], from_uid = None\<rparr>]\<rparr>)]
     ''a.json'' []
   = (Inr \<lparr>datapoints = []\<rparr>, [(''csv'', ''a.json''), (''json'', ''a.json'')])"
proof -
  let ?L = "[stub ''csv'' (\<lambda>u. Inl (ExperimentFetcherDoesntApply None)),
      stub ''json'' (\<lambda>u. Inr \<lparr>datapoints = []\<rparr>),
      stub ''log'' (\<lambda>u. Inr \<lparr>datapoints = [\<lparr>uid = Uid ''1'', values = [], from_uid = None\<rparr>]\<rparr>)]"
  have 1: "(1::nat) < length ?L" by simp
  have 2: "declined (take 1 ?L) ''a.json'' [] = Some [(''csv'', ''a.json'')]"
    by (simp add: stub_def)
  have 3: "(?L ! 1) ''a.json'' [(''csv'', ''a.json'')]
      = (Inr \<lparr>datapoints = []\<rparr>, [(''csv'', ''a.json''), (''json'', ''a.json'')])"
    by (simp add: stub_def)
  from first_match_wins [OF 1 2 3] show ?thesis by blast
qed

text \<open>
  C2 (exhaustion). When every loader of the list signals non-applicability, the dispatcher
  fails with \<^verbatim>\<open>NoFetcherFound\<close> carrying the uri it was given; with the empty list it
  always does.
\<close>

theorem exhaustion_fails:
  "(declined L uri s = Some s' \<longrightarrow> load_xp_with_fetchers L uri s = (Inl (NoFetcherFound uri), s'))
   \<and> load_xp_with_fetchers [] uri s = (Inl (NoFetcherFound uri), s)"
proof -
  have "load_xp_with_fetchers (L @ []) uri s = load_xp_with_fetchers [] uri s'"
    if "declined L uri s = Some s'"
    using that by (rule declined_append)
  then show ?thesis by simp
qed

theorem exhaustion_fails_witness:
  "load_xp_with_fetchers
     [stub ''csv'' (\<lambda>u. Inl (ExperimentFetcherDoesntApply None)),
      stub ''json'' (\<lambda>u. Inl (ExperimentFetcherDoesntApply (Some (''Not a JSON file: '' @ u))))]
     ''x'' []
   = (Inl (NoFetcherFound ''x''), [(''csv'', ''x''), (''json'', ''x'')])"
proof -
  let ?L = "[stub ''csv'' (\<lambda>u. Inl (ExperimentFetcherDoesntApply None)),
      stub ''json'' (\<lambda>u. Inl (ExperimentFetcherDoesntApply (Some (''Not a JSON file: '' @ u))))]"
  have "declined ?L ''x'' [] = Some [(''csv'', ''x''), (''json'', ''x'')]"
    by (simp add: stub_def)
  with exhaustion_fails [of ?L "''x''" "[]" "[(''csv'', ''x''), (''json'', ''x'')]"]
  show ?thesis by blast
qed

section \<open>Properties of the multi-source fetcher\<close>

lemma load_xp_never_declines:
  "load_xp_with_fetchers fs uri s \<noteq> (Inl (ExperimentFetcherDoesntApply m), s')"
  by (induction fs arbitrary: s) (auto split: prod.splits sum.splits error.splits)

lemma dictcomp_append:
  "dictcomp load (xs @ ys) d s =
     (case dictcomp load xs d s of
        (Inl e, s') \<Rightarrow> (Inl e, s')
      | (Inr d', s') \<Rightarrow> dictcomp load ys d' s')"
  by (induction xs arbitrary: d s) (auto split: prod.splits sum.splits)

lemma dictcomp_resolve_all:
  "dictcomp load kvs d s =
     (case resolve_all load (map snd kvs) s of
        (Inl e, s') \<Rightarrow> (Inl e, s')
      | (Inr xps, s') \<Rightarrow> (Inr (dict_of (zip (map fst kvs) xps) d), s'))"
  by (induction kvs arbitrary: d s) (auto simp: dict_of_def split: prod.splits sum.splits)

lemma resolve_all_length:
  "resolve_all load vs s = (Inr xps, s') \<Longrightarrow> length xps = length vs"
  by (induction vs arbitrary: xps s) (auto split: prod.splits sum.splits)

lemma dictcomp_never_declines:
  assumes "\<And>v s m s'. load v s \<noteq> (Inl (ExperimentFetcherDoesntApply m), s')"
  shows "dictcomp load kvs d s \<noteq> (Inl (ExperimentFetcherDoesntApply m), s')"
  using assms by (induction kvs arbitrary: d s) (auto split: prod.splits sum.splits)

lemma call_body_prefixed:
  assumes "startswith uri MULTI_PREFIX"
    and "json_loads (drop (length MULTI_PREFIX) uri) = Some j"
    and "j \<noteq> JOther"
  shows "call_body json_loads load uri s =
     (case dictcomp load (sub_sources j) [] s of
        (Inl e, s') \<Rightarrow> (Inl e, s')
      | (Inr d, s') \<Rightarrow> (Inr (merge d), s'))"
  using assms by (cases j) (simp_all add: call_body_def)

lemma call_body_declines_iff:
  assumes "\<And>v s m s'. load v s \<noteq> (Inl (ExperimentFetcherDoesntApply m), s')"
  shows "(\<exists>m s'. call_body json_loads load uri s = (Inl (ExperimentFetcherDoesntApply m), s'))
     \<longleftrightarrow> \<not> startswith uri MULTI_PREFIX"
proof (cases "startswith uri MULTI_PREFIX")
  case False
  then show ?thesis by (simp add: call_body_def)
next
  case True
  have "call_body json_loads load uri s \<noteq> (Inl (ExperimentFetcherDoesntApply m), s')" for m s'
    using True dictcomp_never_declines [of load, OF assms]
    by (auto simp: call_body_def split: option.splits json.splits prod.splits sum.splits)
  with True show ?thesis by simp
qed

lemma MultipleFetcher_call_declines_iff:
  "(\<exists>m s'. MultipleFetcher_call limit json_loads fetchers uri s
        = (Inl (ExperimentFetcherDoesntApply m), s'))
     \<longleftrightarrow> \<not> startswith uri MULTI_PREFIX"
proof (cases limit)
  case 0
  show ?thesis unfolding 0 MultipleFetcher_call.simps
    by (rule call_body_declines_iff) simp
next
  case (Suc n)
  show ?thesis unfolding Suc MultipleFetcher_call.simps
    by (rule call_body_declines_iff) (rule load_xp_never_declines)
qed

lemma MultipleFetcher_call_unfold:
  "MultipleFetcher_call limit json_loads fetchers uri s =
     call_body json_loads
       (case limit of 0 \<Rightarrow> (\<lambda>v s. (Inl RecursionError, s))
        | Suc n \<Rightarrow> load_xp_with_fetchers (MultipleFetcher_fetchers n json_loads fetchers)) uri s"
  by (cases limit) (simp_all add: MultipleFetcher_fetchers_def)



lemma dict_set_fresh:
  "k \<notin> fst ` set d \<Longrightarrow> dict_set d k v = d @ [(k, v)]"
  by (induction d) auto

lemma dict_of_distinct:
  "distinct (map fst kvs) \<Longrightarrow> fst ` set kvs \<inter> fst ` set d = {} \<Longrightarrow> dict_of kvs d = d @ kvs"
proof (induction kvs arbitrary: d)
  case Nil
  then show ?case by (simp add: dict_of_def)
next
  case (Cons kv kvs)
  obtain k v where kv: "kv = (k, v)" by (cases kv)
  from Cons.prems have fresh: "k \<notin> fst ` set d" by (auto simp: kv)
  have "dict_of (kv # kvs) d = dict_of kvs (dict_set d k v)"
    by (simp add: dict_of_def kv)
  also have "\<dots> = dict_of kvs (d @ [(k, v)])"
    using fresh by (simp add: dict_set_fresh)
  also have "\<dots> = (d @ [(k, v)]) @ kvs"
    using Cons.prems by (intro Cons.IH) (auto simp: kv)
  finally show ?case by (simp add: kv)
qed

lemma datapoints_merge_Nil: "datapoints (merge []) = []"
  by (simp add: merge_def)

lemma datapoints_merge_Cons:
  "datapoints (merge ((k, xp) # d)) = map (namespace k) (datapoints xp) @ datapoints (merge d)"
  by (simp add: merge_def)

lemma uid_namespace: "uid (namespace k dp) = Namespaced k (uid dp)"
  by (simp add: namespace_def)

lemma uid_merge_keys:
  "dp \<in> set (datapoints (merge d)) \<Longrightarrow> \<exists>k u. uid dp = Namespaced k u \<and> k \<in> fst ` set d"
proof (induction d)
  case Nil
  then show ?case by (simp add: datapoints_merge_Nil)
next
  case (Cons kxp d)
  obtain k xp where kxp: "kxp = (k, xp)" by (cases kxp)
  from Cons.prems consider "dp \<in> namespace k ` set (datapoints xp)" | "dp \<in> set (datapoints (merge d))"
    by (auto simp: kxp datapoints_merge_Cons)
  then show ?case
  proof cases
    case 1
    then show ?thesis by (auto simp: kxp uid_namespace)
  next
    case 2
    from Cons.IH [OF 2] show ?thesis by auto
  qed
qed

lemma distinct_uid_merge:
  "distinct (map fst d) \<Longrightarrow> \<forall>xp \<in> snd ` set d. distinct (map uid (datapoints xp)) \<Longrightarrow>
   distinct (map uid (datapoints (merge d)))"
proof (induction d)
  case Nil
  then show ?case by (simp add: datapoints_merge_Nil)
next
  case (Cons kxp d)
  obtain k xp where kxp: "kxp = (k, xp)" by (cases kxp)
  have 1: "distinct (map uid (map (namespace k) (datapoints xp)))"
    using Cons.prems(2) by (simp add: kxp distinct_map comp_def uid_namespace inj_on_def)
  have 2: "distinct (map uid (datapoints (merge d)))"
    using Cons.prems by (intro Cons.IH) auto
  have 3: "set (map uid (map (namespace k) (datapoints xp))) \<inter> set (map uid (datapoints (merge d))) = {}"
  proof -
    have "False" if "a \<in> set (datapoints xp)" "b \<in> set (datapoints (merge d))"
      "uid (namespace k a) = uid b" for a b
    proof -
      from uid_merge_keys [OF that(2)] obtain k' u where "uid b = Namespaced k' u" "k' \<in> fst ` set d"
        by blast
      with that(3) have "k \<in> fst ` set d" by (simp add: uid_namespace)
      with Cons.prems(1) show False by (simp add: kxp)
    qed
    then show ?thesis by auto
  qed
  show ?case
    unfolding kxp datapoints_merge_Cons map_append distinct_append
    using 1 2 3 by blast
qed

lemma length_merge:
  "length (datapoints (merge d)) = sum_list (map (\<lambda>(k, xp). length (datapoints xp)) d)"
  by (induction d) (auto simp: datapoints_merge_Nil datapoints_merge_Cons)

lemma MultipleFetcher_call_resolved:
  assumes "startswith uri MULTI_PREFIX"
    and "json_loads (drop (length MULTI_PREFIX) uri) = Some j"
    and "j \<noteq> JOther"
    and "resolve_all (load_xp_with_fetchers (MultipleFetcher_fetchers limit json_loads fetchers))
           (map snd (sub_sources j)) s = (Inr xps, s')"
  shows "MultipleFetcher_call (Suc limit) json_loads fetchers uri s
     = (Inr (merge (dict_of (zip (map fst (sub_sources j)) xps) [])), s')"
proof -
  let ?load = "load_xp_with_fetchers (MultipleFetcher_fetchers limit json_loads fetchers)"
  have "call_body json_loads ?load uri s =
     (case dictcomp ?load (sub_sources j) [] s of
        (Inl e, s') \<Rightarrow> (Inl e, s')
      | (Inr d, s') \<Rightarrow> (Inr (merge d), s'))"
    using assms(1,2,3) by (rule call_body_prefixed)
  moreover have "dictcomp ?load (sub_sources j) [] s
      = (Inr (dict_of (zip (map fst (sub_sources j)) xps) []), s')"
    using assms(4) by (simp add: dictcomp_resolve_all)
  ultimately show ?thesis
    by (simp add: MultipleFetcher_fetchers_def)
qed


text \<open>
  C3 (hard errors propagate). A failure of a loader other than the non-applicability signal
  leaves the dispatcher as it is, with the state that loader left, whatever loaders follow.
  Through \<^verbatim>\<open>MultipleFetcher\<close>: when the sub-uris before some entry have been resolved
  and the resolution of that entry fails with any error (\<^verbatim>\<open>NoFetcherFound\<close> included),
  the call fails with this error and the state of that moment: no experiment is produced and
  no later entry is resolved.
\<close>

theorem hard_error_propagates:
  "(i < length L \<and> declined (take i L) uri s = Some s1 \<and> (L ! i) uri s1 = (Inl e, s2) \<and> is_hard e
      \<longrightarrow> load_xp_with_fetchers L uri s = (Inl e, s2)
        \<and> (\<forall>L'. load_xp_with_fetchers (take i L @ (L ! i) # L') uri s = (Inl e, s2)))
   \<and> (startswith curi MULTI_PREFIX
       \<and> json_loads (drop (length MULTI_PREFIX) curi) = Some j
       \<and> sub_sources j = pre @ (k, v) # post
       \<and> dictcomp (load_xp_with_fetchers (MultipleFetcher_fetchers limit json_loads fetchers))
            pre [] t = (Inr d, t1)
       \<and> load_xp_with_fetchers (MultipleFetcher_fetchers limit json_loads fetchers) v t1
            = (Inl e', t2)
      \<longrightarrow> MultipleFetcher_call (Suc limit) json_loads fetchers curi t = (Inl e', t2))"
proof (intro conjI impI allI; (elim conjE)?)
  assume a: "i < length L" "declined (take i L) uri s = Some s1"
    "(L ! i) uri s1 = (Inl e, s2)" "is_hard e"
  show "load_xp_with_fetchers L uri s = (Inl e, s2)"
    using load_xp_with_fetchers_at [OF a(1,2)] a(3,4)
    by (cases e) (simp_all add: is_hard_def)
  show "load_xp_with_fetchers (take i L @ (L ! i) # L') uri s = (Inl e, s2)" for L'
    using declined_append [OF a(2)] a(3,4)
    by (cases e) (simp_all add: is_hard_def)
next
  let ?load = "load_xp_with_fetchers (MultipleFetcher_fetchers limit json_loads fetchers)"
  assume b: "startswith curi MULTI_PREFIX"
    "json_loads (drop (length MULTI_PREFIX) curi) = Some j"
    "sub_sources j = pre @ (k, v) # post"
    "dictcomp ?load pre [] t = (Inr d, t1)"
    "?load v t1 = (Inl e', t2)"
  from b(3) have "j \<noteq> JOther" by auto
  have "dictcomp ?load (sub_sources j) [] t = (Inl e', t2)"
    unfolding b(3) dictcomp_append using b(4,5) by simp
  moreover have "call_body json_loads ?load curi t =
     (case dictcomp ?load (sub_sources j) [] t of
        (Inl e, s') \<Rightarrow> (Inl e, s')
      | (Inr d, s') \<Rightarrow> (Inr (merge d), s'))"
    using b(1,2) \<open>j \<noteq> JOther\<close> by (rule call_body_prefixed)
  ultimately show "MultipleFetcher_call (Suc limit) json_loads fetchers curi t = (Inl e', t2)"
    by (simp add: MultipleFetcher_fetchers_def)
qed

theorem hard_error_propagates_witness:
  "load_xp_with_fetchers loaders ''b'' []
     = (Inl (OtherError ''bad file''), [(''demo'', ''b''), (''csv'', ''b'')])
   \<and> MultipleFetcher_call (Suc 0) payloads loaders
        (''multi://['' @ quoted ''a'' @ '','' @ quoted ''b'' @ '','' @ quoted ''c'' @ '']'') []
      = (Inl (OtherError ''bad file''),
         [(''demo'', ''a''), (''csv'', ''a''), (''demo'', ''b''), (''csv'', ''b'')])"
proof -
  let ?uri = "''multi://['' @ quoted ''a'' @ '','' @ quoted ''b'' @ '','' @ quoted ''c'' @ '']''"
  let ?loga = "[(''demo'', ''a''), (''csv'', ''a'')]"
  let ?logb = "[(''demo'', ''a''), (''csv'', ''a''), (''demo'', ''b''), (''csv'', ''b'')]"
  have a: "1 < length loaders \<and> declined (take 1 loaders) ''b'' [] = Some [(''demo'', ''b'')]
      \<and> (loaders ! 1) ''b'' [(''demo'', ''b'')]
          = (Inl (OtherError ''bad file''), [(''demo'', ''b''), (''csv'', ''b'')])
      \<and> is_hard (OtherError ''bad file'')"
    by (simp add: loaders_def stub_def is_hard_def)
  have b: "startswith ?uri MULTI_PREFIX
       \<and> payloads (drop (length MULTI_PREFIX) ?uri) = Some (JList [''a'', ''b'', ''c''])
       \<and> sub_sources (JList [''a'', ''b'', ''c'']) = [(''a'', ''a'')] @ (''b'', ''b'') # [(''c'', ''c'')]
       \<and> dictcomp (load_xp_with_fetchers (MultipleFetcher_fetchers 0 payloads loaders))
            [(''a'', ''a'')] [] [] = (Inr [(''a'', sample_xp)], ?loga)
       \<and> load_xp_with_fetchers (MultipleFetcher_fetchers 0 payloads loaders) ''b'' ?loga
            = (Inl (OtherError ''bad file''), ?logb)"
    by (simp add: MULTI_PREFIX_def payloads_def quoted_def loaders_def stub_def
        MultipleFetcher_fetchers_def)
  note h = hard_error_propagates [of 1 loaders "''b''" "[]" "[(''demo'', ''b'')]"
      "OtherError ''bad file''" "[(''demo'', ''b''), (''csv'', ''b'')]" ?uri payloads
      "JList [''a'', ''b'', ''c'']" "[(''a'', ''a'')]" "''b''" "''b''"
      "[(''c'', ''c'')]" 0 loaders "[]" "[(''a'', sample_xp)]" ?loga
      "OtherError ''bad file''" ?logb]
  from h a have "load_xp_with_fetchers loaders ''b'' []
      = (Inl (OtherError ''bad file''), [(''demo'', ''b''), (''csv'', ''b'')])"
    by blast
  moreover from h b have "MultipleFetcher_call (Suc 0) payloads loaders ?uri []
      = (Inl (OtherError ''bad file''), ?logb)"
    by blast
  ultimately show ?thesis by blast
qed

text \<open>
  C4 (applicability gate). \<^verbatim>\<open>MultipleFetcher\<close> signals non-applicability exactly when
  the uri does not start with \<^verbatim>\<open>multi://\<close>. With the prefix, a payload that is not JSON
  fails with \<^verbatim>\<open>JSONDecodeError\<close> and a JSON value that is neither a list nor a
  mapping fails with \<^verbatim>\<open>AttributeError\<close>, both hard failures.
\<close>

theorem applicability_gate:
  "((\<exists>m s'. MultipleFetcher_call limit json_loads fetchers uri s
        = (Inl (ExperimentFetcherDoesntApply m), s'))
      \<longleftrightarrow> \<not> startswith uri MULTI_PREFIX)
   \<and> (\<not> startswith uri MULTI_PREFIX \<longrightarrow>
        MultipleFetcher_call limit json_loads fetchers uri s
          = (Inl (ExperimentFetcherDoesntApply None), s))
   \<and> (startswith uri MULTI_PREFIX \<and> json_loads (drop (length MULTI_PREFIX) uri) = None \<longrightarrow>
        MultipleFetcher_call limit json_loads fetchers uri s = (Inl JSONDecodeError, s)
        \<and> is_hard JSONDecodeError)
   \<and> (startswith uri MULTI_PREFIX \<and> json_loads (drop (length MULTI_PREFIX) uri) = Some JOther \<longrightarrow>
        MultipleFetcher_call limit json_loads fetchers uri s = (Inl AttributeError, s)
        \<and> is_hard AttributeError)"
proof (intro conjI impI)
  show "(\<exists>m s'. MultipleFetcher_call limit json_loads fetchers uri s
        = (Inl (ExperimentFetcherDoesntApply m), s'))
      \<longleftrightarrow> \<not> startswith uri MULTI_PREFIX"
    by (rule MultipleFetcher_call_declines_iff)
qed (simp_all add: MultipleFetcher_call_unfold call_body_def is_hard_def)


theorem applicability_gate_witness:
  "MultipleFetcher_call (Suc 0) payloads loaders ''a.csv'' []
     = (Inl (ExperimentFetcherDoesntApply None), [])
   \<and> MultipleFetcher_call (Suc 0) payloads loaders ''multi://[1,'' [] = (Inl JSONDecodeError, [])
   \<and> MultipleFetcher_call (Suc 0) payloads loaders ''multi://3'' [] = (Inl AttributeError, [])"
proof -
  have 1: "\<not> startswith ''a.csv'' MULTI_PREFIX"
    by (simp add: MULTI_PREFIX_def)
  have 2: "startswith ''multi://[1,'' MULTI_PREFIX
      \<and> payloads (drop (length MULTI_PREFIX) ''multi://[1,'') = None"
    by (simp add: MULTI_PREFIX_def payloads_def quoted_def)
  have 3: "startswith ''multi://3'' MULTI_PREFIX
      \<and> payloads (drop (length MULTI_PREFIX) ''multi://3'') = Some JOther"
    by (simp add: MULTI_PREFIX_def payloads_def quoted_def)
  from 1 applicability_gate [of "Suc 0" payloads loaders "''a.csv''" "[]"]
  have "MultipleFetcher_call (Suc 0) payloads loaders ''a.csv'' []
     = (Inl (ExperimentFetcherDoesntApply None), [])" by blast
  moreover from 2 applicability_gate [of "Suc 0" payloads loaders "''multi://[1,''" "[]"]
  have "MultipleFetcher_call (Suc 0) payloads loaders ''multi://[1,'' [] = (Inl JSONDecodeError, [])"
    by blast
  moreover from 3 applicability_gate [of "Suc 0" payloads loaders "''multi://3''" "[]"]
  have "MultipleFetcher_call (Suc 0) payloads loaders ''multi://3'' [] = (Inl AttributeError, [])"
    by blast
  ultimately show ?thesis by blast
qed

text \<open>
  C5 (list form). When the payload parses to a list of sub-uris and each of them resolves
  through the full loader list of the object, which ends with the object itself, the call
  returns the merge of the dict that stores each experiment under its sub-uri. For pairwise
  distinct sub-uris this dict pairs every sub-uri with its experiment, the merged experiment
  has as many datapoints as the sub-experiments together, and its uids are pairwise distinct
  when those of each sub-experiment are: equal uids of different sub-uris do not collide.
\<close>

theorem list_form_merge:
  assumes "startswith uri MULTI_PREFIX"
    and "json_loads (drop (length MULTI_PREFIX) uri) = Some (JList defs)"
    and "resolve_all (load_xp_with_fetchers (MultipleFetcher_fetchers limit json_loads fetchers))
           defs s = (Inr xps, s')"
  shows "MultipleFetcher_call (Suc limit) json_loads fetchers uri s
           = (Inr (merge (dict_of (zip defs xps) [])), s')
    \<and> (distinct defs \<longrightarrow>
          dict_of (zip defs xps) [] = zip defs xps
        \<and> length (datapoints (merge (zip defs xps))) = sum_list (map (\<lambda>xp. length (datapoints xp)) xps)
        \<and> ((\<forall>xp \<in> set xps. distinct (map uid (datapoints xp))) \<longrightarrow>
              distinct (map uid (datapoints (merge (zip defs xps))))))"
proof (intro conjI impI)
  have "map snd (sub_sources (JList defs)) = defs" "map fst (sub_sources (JList defs)) = defs"
    by (simp_all add: comp_def)
  with MultipleFetcher_call_resolved [where json_loads = json_loads and j = "JList defs"
      and uri = uri and limit = limit and fetchers = fetchers and s = s and xps = xps and s' = s']
    assms
  show "MultipleFetcher_call (Suc limit) json_loads fetchers uri s
           = (Inr (merge (dict_of (zip defs xps) [])), s')"
    by simp
next
  have len: "length xps = length defs"
    using assms(3) by (rule resolve_all_length)
  assume d: "distinct defs"
  then have dz: "distinct (map fst (zip defs xps))"
    using len by simp
  then show "dict_of (zip defs xps) [] = zip defs xps"
    using dict_of_distinct [of "zip defs xps" "[]"] by simp
  have "map (\<lambda>(k, xp). length (datapoints xp)) (zip defs xps) = map (\<lambda>xp. length (datapoints xp)) xps"
    using len by (induction defs xps rule: list_induct2') auto
  then show "length (datapoints (merge (zip defs xps))) = sum_list (map (\<lambda>xp. length (datapoints xp)) xps)"
    by (simp add: length_merge)
  assume "\<forall>xp \<in> set xps. distinct (map uid (datapoints xp))"
  then have "\<forall>xp \<in> snd ` set (zip defs xps). distinct (map uid (datapoints xp))"
    by (auto dest: set_zip_rightD)
  with dz show "distinct (map uid (datapoints (merge (zip defs xps))))"
    by (rule distinct_uid_merge)
qed

theorem list_form_merge_witness:
  "MultipleFetcher_call (Suc (Suc 0)) payloads loaders
     (''multi://['' @ quoted (''multi://['' @ [CHR 0x5C, CHR 0x22] @ ''a'' @ [CHR 0x5C, CHR 0x22] @ '']'')
          @ '','' @ quoted ''c'' @ '']'') []
     = (Inr (merge [(multi_a, merge [(''a'', sample_xp)]), (''c'', sample_xp)]),
        [(''demo'', multi_a), (''csv'', multi_a), (''demo'', ''a''), (''csv'', ''a''),
         (''demo'', ''c''), (''csv'', ''c'')])
   \<and> length (datapoints (merge [(multi_a, merge [(''a'', sample_xp)]), (''c'', sample_xp)])) = 4
   \<and> distinct (map uid (datapoints (merge [(multi_a, merge [(''a'', sample_xp)]), (''c'', sample_xp)])))"
proof -
  let ?uri = "''multi://['' @ quoted (''multi://['' @ [CHR 0x5C, CHR 0x22] @ ''a'' @ [CHR 0x5C, CHR 0x22] @ '']'')
          @ '','' @ quoted ''c'' @ '']''"
  let ?log = "[(''demo'', multi_a), (''csv'', multi_a), (''demo'', ''a''), (''csv'', ''a''),
         (''demo'', ''c''), (''csv'', ''c'')]"
  have 1: "startswith ?uri MULTI_PREFIX"
    by (simp add: MULTI_PREFIX_def quoted_def)
  have 2: "payloads (drop (length MULTI_PREFIX) ?uri) = Some (JList [multi_a, ''c''])"
    by (simp add: MULTI_PREFIX_def quoted_def payloads_def)
  have inner: "MultipleFetcher_call (Suc 0) payloads loaders multi_a log
      = (Inr (merge [(''a'', sample_xp)]), log @ [(''demo'', ''a''), (''csv'', ''a'')])" for log
    by (simp add: call_body_def MULTI_PREFIX_def multi_a_def quoted_def payloads_def loaders_def
        stub_def)
  have dec: "declined loaders multi_a [] = Some [(''demo'', multi_a), (''csv'', multi_a)]"
    by (simp add: loaders_def stub_def multi_a_def quoted_def)
  have ld_inner: "load_xp_with_fetchers (loaders @ [MultipleFetcher_call (Suc 0) payloads loaders])
      multi_a [] = (Inr (merge [(''a'', sample_xp)]),
        [(''demo'', multi_a), (''csv'', multi_a), (''demo'', ''a''), (''csv'', ''a'')])"
    unfolding declined_append [OF dec]
    by (simp del: MultipleFetcher_call.simps add: inner)
  have ld_c: "load_xp_with_fetchers (loaders @ [MultipleFetcher_call (Suc 0) payloads loaders])
      ''c'' log = (Inr sample_xp, log @ [(''demo'', ''c''), (''csv'', ''c'')])" for log
    by (simp add: loaders_def stub_def)
  have 3: "resolve_all (load_xp_with_fetchers (MultipleFetcher_fetchers (Suc 0) payloads loaders))
      [multi_a, ''c''] [] = (Inr [merge [(''a'', sample_xp)], sample_xp], ?log)"
    unfolding MultipleFetcher_fetchers_def
    by (simp del: MultipleFetcher_call.simps add: ld_inner ld_c)
  have 4: "distinct [multi_a, ''c'']"
    by (simp add: multi_a_def)
  have 5: "\<forall>xp \<in> set [merge [(''a'', sample_xp)], sample_xp]. distinct (map uid (datapoints xp))"
    by (simp add: sample_xp_def merge_def namespace_def)
  have 6: "length (datapoints (merge [(''a'', sample_xp)])) = 2" "length (datapoints sample_xp) = 2"
    by (simp_all add: length_merge sample_xp_def)
  from list_form_merge [OF 1 2 3] 4 5 6 show ?thesis
    by simp
qed

lemma strip_namespace_namespace: "strip_namespace (namespace k dp) = dp"
  by (simp add: strip_namespace_def namespace_def option.map_comp comp_def option.map_ident)

lemma map_strip_namespace: "map (strip_namespace \<circ> namespace k) dps = dps"
  by (induction dps) (simp_all add: strip_namespace_namespace)

lemma filter_namespace_same:
  "filter (\<lambda>dp. case uid dp of Namespaced k' u \<Rightarrow> k' = k | Uid x \<Rightarrow> False) (map (namespace k) dps)
     = map (namespace k) dps"
  by (induction dps) (simp_all add: uid_namespace)

lemma filter_namespace_other:
  "k' \<noteq> k \<Longrightarrow>
   filter (\<lambda>dp. case uid dp of Namespaced k'' u \<Rightarrow> k'' = k | Uid x \<Rightarrow> False) (map (namespace k') dps)
     = []"
  by (induction dps) (simp_all add: uid_namespace)

lemma two_copies:
  assumes "x \<noteq> y"
  shows "map strip_namespace (in_namespace x (merge [(x, xpa), (y, xpb)])) = datapoints xpa"
    and "map strip_namespace (in_namespace y (merge [(x, xpa), (y, xpb)])) = datapoints xpb"
  using assms
  by (simp_all add: in_namespace_def datapoints_merge_Cons datapoints_merge_Nil
      filter_namespace_same filter_namespace_other map_strip_namespace)


lemma loaders_a:
  "load_xp_with_fetchers (MultipleFetcher_fetchers n payloads loaders) ''a'' log
     = (Inr sample_xp, log @ [(''demo'', ''a''), (''csv'', ''a'')])"
  by (simp add: MultipleFetcher_fetchers_def loaders_def stub_def)


text \<open>
  C6 (mapping form). When the payload parses to a mapping and each of its sub-uris resolves,
  the call returns the merge of the dict that stores each experiment under the key of the
  mapping, not under the sub-uri. With the same sub-uri \<open>a\<close> under two distinct keys \<open>x\<close>
  and \<open>y\<close>, \<open>a\<close> is resolved twice and the merged experiment consists of two copies, one
  in each namespace; without its namespace each copy is the experiment that the resolution of
  \<open>a\<close> returned.
\<close>

theorem mapping_form_merge:
  "(startswith uri MULTI_PREFIX
     \<and> json_loads (drop (length MULTI_PREFIX) uri) = Some (JDict items)
     \<and> resolve_all (load_xp_with_fetchers (MultipleFetcher_fetchers limit json_loads fetchers))
          (map snd items) s = (Inr xps, s')
     \<longrightarrow> MultipleFetcher_call (Suc limit) json_loads fetchers uri s
            = (Inr (merge (dict_of (zip (map fst items) xps) [])), s')
        \<and> (distinct (map fst items) \<longrightarrow>
             dict_of (zip (map fst items) xps) [] = zip (map fst items) xps))
   \<and> (startswith uri MULTI_PREFIX
     \<and> json_loads (drop (length MULTI_PREFIX) uri) = Some (JDict [(x, a), (y, a)])
     \<and> x \<noteq> y
     \<and> load_xp_with_fetchers (MultipleFetcher_fetchers limit json_loads fetchers) a s = (Inr xpa, s1)
     \<and> load_xp_with_fetchers (MultipleFetcher_fetchers limit json_loads fetchers) a s1 = (Inr xpb, s2)
     \<longrightarrow> MultipleFetcher_call (Suc limit) json_loads fetchers uri s
            = (Inr (merge [(x, xpa), (y, xpb)]), s2)
        \<and> datapoints (merge [(x, xpa), (y, xpb)])
            = map (namespace x) (datapoints xpa) @ map (namespace y) (datapoints xpb)
        \<and> map strip_namespace (in_namespace x (merge [(x, xpa), (y, xpb)])) = datapoints xpa
        \<and> map strip_namespace (in_namespace y (merge [(x, xpa), (y, xpb)])) = datapoints xpb)"
proof (intro conjI impI; (elim conjE)?)
  let ?load = "load_xp_with_fetchers (MultipleFetcher_fetchers limit json_loads fetchers)"
  assume g: "startswith uri MULTI_PREFIX"
    "json_loads (drop (length MULTI_PREFIX) uri) = Some (JDict items)"
    "resolve_all ?load (map snd items) s = (Inr xps, s')"
  from MultipleFetcher_call_resolved [where json_loads = json_loads and j = "JDict items"
      and uri = uri and limit = limit and fetchers = fetchers and s = s and xps = xps and s' = s'] g
  show "MultipleFetcher_call (Suc limit) json_loads fetchers uri s
            = (Inr (merge (dict_of (zip (map fst items) xps) [])), s')"
    by simp
  have len: "length xps = length items"
    using resolve_all_length [OF g(3)] by simp
  assume "distinct (map fst items)"
  then have "distinct (map fst (zip (map fst items) xps))"
    using len by simp
  then show "dict_of (zip (map fst items) xps) [] = zip (map fst items) xps"
    using dict_of_distinct [of "zip (map fst items) xps" "[]"] by simp
next
  let ?load = "load_xp_with_fetchers (MultipleFetcher_fetchers limit json_loads fetchers)"
  assume p: "startswith uri MULTI_PREFIX"
    "json_loads (drop (length MULTI_PREFIX) uri) = Some (JDict [(x, a), (y, a)])"
    "x \<noteq> y" "?load a s = (Inr xpa, s1)" "?load a s1 = (Inr xpb, s2)"
  have r: "resolve_all ?load (map snd (sub_sources (JDict [(x, a), (y, a)]))) s = (Inr [xpa, xpb], s2)"
    using p(4,5) by simp
  have "dict_of (zip (map fst (sub_sources (JDict [(x, a), (y, a)]))) [xpa, xpb]) []
      = [(x, xpa), (y, xpb)]"
    using p(3) by (simp add: dict_of_def)
  with MultipleFetcher_call_resolved [where json_loads = json_loads and j = "JDict [(x, a), (y, a)]"
      and uri = uri and limit = limit and fetchers = fetchers and s = s and xps = "[xpa, xpb]"
      and s' = s2] p(1,2) r
  show "MultipleFetcher_call (Suc limit) json_loads fetchers uri s
            = (Inr (merge [(x, xpa), (y, xpb)]), s2)"
    by simp
  show "datapoints (merge [(x, xpa), (y, xpb)])
            = map (namespace x) (datapoints xpa) @ map (namespace y) (datapoints xpb)"
    by (simp add: datapoints_merge_Cons datapoints_merge_Nil)
  show "map strip_namespace (in_namespace x (merge [(x, xpa), (y, xpb)])) = datapoints xpa"
    using p(3) by (rule two_copies)
  show "map strip_namespace (in_namespace y (merge [(x, xpa), (y, xpb)])) = datapoints xpb"
    using p(3) by (rule two_copies)
qed


theorem mapping_form_merge_witness:
  "MultipleFetcher_call (Suc 0) payloads loaders
     (''multi://{'' @ quoted ''x'' @ '':'' @ quoted ''a'' @ '','' @ quoted ''y'' @ '':'' @ quoted ''a'' @ ''}'') []
     = (Inr (merge [(''x'', sample_xp), (''y'', sample_xp)]),
        [(''demo'', ''a''), (''csv'', ''a''), (''demo'', ''a''), (''csv'', ''a'')])
   \<and> merge [(''x'', sample_xp), (''y'', sample_xp)]
       = merge (dict_of (zip (map fst [(''x'', ''a''), (''y'', ''a'')]) [sample_xp, sample_xp]) [])
   \<and> map strip_namespace (in_namespace ''x'' (merge [(''x'', sample_xp), (''y'', sample_xp)])) = datapoints sample_xp
   \<and> map strip_namespace (in_namespace ''y'' (merge [(''x'', sample_xp), (''y'', sample_xp)])) = datapoints sample_xp"
proof -
  let ?uri = "''multi://{'' @ quoted ''x'' @ '':'' @ quoted ''a'' @ '','' @ quoted ''y'' @ '':'' @ quoted ''a'' @ ''}''"
  let ?items = "[(''x'', ''a''), (''y'', ''a'')]"
  let ?log = "[(''demo'', ''a''), (''csv'', ''a''), (''demo'', ''a''), (''csv'', ''a'')]"
  have 1: "startswith ?uri MULTI_PREFIX"
    by (simp add: MULTI_PREFIX_def quoted_def)
  have 2: "payloads (drop (length MULTI_PREFIX) ?uri) = Some (JDict ?items)"
    by (simp add: MULTI_PREFIX_def quoted_def payloads_def)
  have 3: "resolve_all (load_xp_with_fetchers (MultipleFetcher_fetchers 0 payloads loaders))
      (map snd ?items) [] = (Inr [sample_xp, sample_xp], ?log)"
    by (simp add: loaders_a)
  have 4: "distinct (map fst ?items)" "''x'' \<noteq> ''y''"
    by simp_all
  have 5: "load_xp_with_fetchers (MultipleFetcher_fetchers 0 payloads loaders) ''a'' []
      = (Inr sample_xp, [(''demo'', ''a''), (''csv'', ''a'')])"
    "load_xp_with_fetchers (MultipleFetcher_fetchers 0 payloads loaders) ''a''
       [(''demo'', ''a''), (''csv'', ''a'')] = (Inr sample_xp, ?log)"
    by (simp_all add: loaders_a)
  note m = mapping_form_merge [where uri = ?uri and json_loads = payloads and items = ?items
      and limit = 0 and fetchers = loaders and s = "[]" and xps = "[sample_xp, sample_xp]" and s' = ?log
      and x = "''x''" and a = "''a''" and y = "''y''" and xpa = sample_xp
      and ?s1.0 = "[(''demo'', ''a''), (''csv'', ''a'')]" and xpb = sample_xp and ?s2.0 = ?log]
  from m 1 2 3 4(1) have "merge [(''x'', sample_xp), (''y'', sample_xp)]
       = merge (dict_of (zip (map fst ?items) [sample_xp, sample_xp]) [])"
    by simp
  moreover from m 1 2 4(2) 5 have "MultipleFetcher_call (Suc 0) payloads loaders ?uri []
     = (Inr (merge [(''x'', sample_xp), (''y'', sample_xp)]), ?log)
   \<and> map strip_namespace (in_namespace ''x'' (merge [(''x'', sample_xp), (''y'', sample_xp)])) = datapoints sample_xp
   \<and> map strip_namespace (in_namespace ''y'' (merge [(''x'', sample_xp), (''y'', sample_xp)])) = datapoints sample_xp"
    by blast
  ultimately show ?thesis by blast
qed





section \<open>Properties of the CSV loader\<close>

lemma load_csv_opened:
  "load_csv env uri s =
     (if \<not> endswith uri ''.csv''
      then (Inl (ExperimentFetcherDoesntApply (Some (''Not a CSV file: '' @ uri))), s)
      else case open_file env s uri of
        Inl FileNotFoundError \<Rightarrow>
          (Inl (ExperimentFetcherDoesntApply (Some (''No such file: '' @ uri))), s)
      | Inl e \<Rightarrow> (Inl e, s)
      | Inr csvfile \<Rightarrow>
          (case from_csv env csvfile of
             Inl FileNotFoundError \<Rightarrow>
               (Inl (ExperimentFetcherDoesntApply (Some (''No such file: '' @ uri))), s)
           | Inl e \<Rightarrow> (Inl e, s)
           | Inr xp \<Rightarrow> (Inr xp, s)))"
  by (simp add: load_csv_def split: sum.splits error.splits)


text \<open>
  C7 (CSV loader). \<^verbatim>\<open>load_csv\<close> signals non-applicability for a uri that does not end
  in \<^verbatim>\<open>.csv\<close>, and also for one that does when \<^verbatim>\<open>open\<close> raises
  \<^verbatim>\<open>FileNotFoundError\<close>; in both cases the dispatcher goes on with the loaders after it.
\<close>

theorem csv_not_applicable:
  "(\<not> endswith uri ''.csv'' \<longrightarrow>
      load_csv env uri s
        = (Inl (ExperimentFetcherDoesntApply (Some (''Not a CSV file: '' @ uri))), s))
   \<and> (endswith uri ''.csv'' \<and> open_file env s uri = Inl FileNotFoundError \<longrightarrow>
      load_csv env uri s
        = (Inl (ExperimentFetcherDoesntApply (Some (''No such file: '' @ uri))), s))
   \<and> (\<not> endswith uri ''.csv'' \<or> open_file env s uri = Inl FileNotFoundError \<longrightarrow>
      load_xp_with_fetchers (load_csv env # fetchers) uri s = load_xp_with_fetchers fetchers uri s)"
  by (auto simp: load_csv_opened)

theorem csv_not_applicable_witness:
  "load_csv files_env ''runs.json'' Map.empty
     = (Inl (ExperimentFetcherDoesntApply (Some ''Not a CSV file: runs.json'')), Map.empty)
   \<and> load_csv files_env ''runs.csv'' Map.empty
     = (Inl (ExperimentFetcherDoesntApply (Some ''No such file: runs.csv'')), Map.empty)
   \<and> load_xp_with_fetchers [load_csv files_env] ''runs.csv'' Map.empty
     = (Inl (NoFetcherFound ''runs.csv''), Map.empty)"
proof -
  have 1: "\<not> endswith ''runs.json'' ''.csv''"
    by (simp add: endswith_def)
  have 2: "endswith ''runs.csv'' ''.csv'' \<and> open_file files_env Map.empty ''runs.csv'' = Inl FileNotFoundError"
    by (simp add: endswith_def files_env_def)
  from csv_not_applicable [of "''runs.json''" files_env Map.empty "[]"] 1
  have "load_csv files_env ''runs.json'' Map.empty
     = (Inl (ExperimentFetcherDoesntApply (Some ''Not a CSV file: runs.json'')), Map.empty)"
    by simp
  moreover from csv_not_applicable [of "''runs.csv''" files_env Map.empty "[]"] 2
  have "load_csv files_env ''runs.csv'' Map.empty
     = (Inl (ExperimentFetcherDoesntApply (Some ''No such file: runs.csv'')), Map.empty)
   \<and> load_xp_with_fetchers [load_csv files_env] ''runs.csv'' Map.empty
     = (Inl (NoFetcherFound ''runs.csv''), Map.empty)"
    by simp
  ultimately show ?thesis by blast
qed

section \<open>Properties of the registry builder\<close>

lemma get_fetchers_loop_append:
  "get_fetchers_loop env a (pre @ post) h s =
     (case get_fetchers_loop env a pre h s of
        (Inl e, h', s') \<Rightarrow> (Inl e, h', s')
      | (Inr u, h', s') \<Rightarrow> get_fetchers_loop env a post h' s')"
  by (induction pre arbitrary: h s)
    (auto simp: Let_def split: prod.splits sum.splits option.splits)

lemma read_list_append: "read_list (list_append h a v) a = read_list h a @ [v]"
  by (simp add: list_append_def read_list_def)

lemma get_fetchers_loop_contents:
  "get_fetchers_loop env a specs h s = (Inr u, h', s') \<Longrightarrow>
   \<exists>fs. length fs = length specs \<and> read_list h' a = read_list h a @ map Fn fs
     \<and> next_addr h' = next_addr h \<and> fetchers_of h' = fetchers_of h
     \<and> (\<forall>b. b \<noteq> a \<longrightarrow> list_at h' b = list_at h b)"
proof (induction specs arbitrary: h s)
  case Nil
  then show ?case by simp
next
  case (Cons spec specs)
  let ?parts = "str_split spec CHR ''.''"
  from Cons.prems obtain m s1 f where
    fm: "find_module env ?parts s = (Inr m, s1)" and
    ga: "getattr env m (last ?parts) = Some f" and
    rest: "get_fetchers_loop env a specs (list_append h a (Fn f)) s1 = (Inr u, h', s')"
    by (auto simp: Let_def split: prod.splits sum.splits option.splits)
  from Cons.IH [OF rest] obtain fs where
    fs: "length fs = length specs"
      "read_list h' a = read_list (list_append h a (Fn f)) a @ map Fn fs"
      "next_addr h' = next_addr (list_append h a (Fn f))"
      "fetchers_of h' = fetchers_of (list_append h a (Fn f))"
      "\<forall>b. b \<noteq> a \<longrightarrow> list_at h' b = list_at (list_append h a (Fn f)) b"
    by blast
  have "length (f # fs) = length (spec # specs)"
    using fs(1) by simp
  moreover have "read_list h' a = read_list h a @ map Fn (f # fs)"
    using fs(2) by (simp add: read_list_append)
  moreover have "next_addr h' = next_addr h" "fetchers_of h' = fetchers_of h"
    "\<forall>b. b \<noteq> a \<longrightarrow> list_at h' b = list_at h b"
    using fs(3,4,5) by (simp_all add: list_append_def)
  ultimately show ?case by blast
qed

lemma find_module_cases:
  "find_module env parts s =
     (case import_module env (str_join ''.'' (butlast parts)) s of
        (Inr m, s') \<Rightarrow> (Inr m, s')
      | (Inl e, s') \<Rightarrow>
          (if e = ModuleNotFoundError \<and> length parts = 2
           then get_module_by_name_in_cwd env (parts ! 0) s'
           else (Inl e, s')))"
  by (auto simp: find_module_def split: prod.splits sum.splits error.splits)

lemma get_module_by_name_in_cwd_exec_file [simp]:
  "get_module_by_name_in_cwd (env\<lparr>exec_file := ef\<rparr>) name s = ef name (cwd_path env s (name @ ''.py'')) s"
  by (simp add: get_module_by_name_in_cwd_def)


text \<open>
  C8 (registry builder). For each specification the containing module is asked from the
  standard import first, and a module it gives is the one used. The script of the same name
  in the working directory is loaded when that import raises \<^verbatim>\<open>ModuleNotFoundError\<close> and
  the specification has exactly two segments, and only then: in every other case the result
  does not depend on the script loader \<open>ef\<close>. With another number of segments the
  \<^verbatim>\<open>ModuleNotFoundError\<close> is raised again. When the specifications before some entry
  have been resolved and that entry fails, by its module or by a missing attribute,
  \<^verbatim>\<open>get_fetchers\<close> fails with this error and returns no list; a list that it returns
  holds the built-in loaders, one loader for every specification and the multi-source
  fetcher.
\<close>

theorem registry_resolution:
  "(import_module env (str_join ''.'' (butlast parts)) s = (Inr m, s') \<longrightarrow>
      find_module env parts s = (Inr m, s'))
   \<and> (import_module env (str_join ''.'' (butlast parts)) s = (Inl ModuleNotFoundError, s')
        \<and> length parts = 2 \<longrightarrow>
      find_module env parts s = exec_file env (parts ! 0) (cwd_path env s' (parts ! 0 @ ''.py'')) s')
   \<and> (fst (import_module env (str_join ''.'' (butlast parts)) s) \<noteq> Inl ModuleNotFoundError
        \<or> length parts \<noteq> 2 \<longrightarrow>
      find_module (env\<lparr>exec_file := ef\<rparr>) parts s = find_module env parts s)
   \<and> (import_module env (str_join ''.'' (butlast parts)) s = (Inl ModuleNotFoundError, s')
        \<and> length parts \<noteq> 2 \<longrightarrow>
      find_module env parts s = (Inl ModuleNotFoundError, s'))
   \<and> (new_list h (map Fn (builtin_fetchers env)) = (a, h0)
        \<and> get_fetchers_loop env a pre h0 t = (Inr (), h1, t1)
        \<and> (find_module env (str_split spec CHR ''.'') t1 = (Inl e, t2)
           \<or> (\<exists>md. find_module env (str_split spec CHR ''.'') t1 = (Inr md, t2)
                \<and> getattr env md (last (str_split spec CHR ''.'')) = None \<and> e = AttributeError))
      \<longrightarrow> get_fetchers env (pre @ spec # post) h t = (Inl e, h1, t2))
   \<and> (get_fetchers env add_fetchers h t = (Inr r, h', t') \<longrightarrow>
      length (read_list h' r) = length (builtin_fetchers env) + length add_fetchers + 1)"
proof (intro conjI impI; (elim conjE)?)
  assume "import_module env (str_join ''.'' (butlast parts)) s = (Inr m, s')"
  then show "find_module env parts s = (Inr m, s')"
    by (simp add: find_module_cases)
next
  assume "import_module env (str_join ''.'' (butlast parts)) s = (Inl ModuleNotFoundError, s')"
    "length parts = 2"
  then show "find_module env parts s
      = exec_file env (parts ! 0) (cwd_path env s' (parts ! 0 @ ''.py'')) s'"
    by (simp add: find_module_cases get_module_by_name_in_cwd_def)
next
  assume "fst (import_module env (str_join ''.'' (butlast parts)) s) \<noteq> Inl ModuleNotFoundError
        \<or> length parts \<noteq> 2"
  then show "find_module (env\<lparr>exec_file := ef\<rparr>) parts s = find_module env parts s"
    by (auto simp: find_module_cases split: prod.splits sum.splits)
next
  assume "import_module env (str_join ''.'' (butlast parts)) s = (Inl ModuleNotFoundError, s')"
    "length parts \<noteq> 2"
  then show "find_module env parts s = (Inl ModuleNotFoundError, s')"
    by (simp add: find_module_cases)
next
  assume n: "new_list h (map Fn (builtin_fetchers env)) = (a, h0)"
    and l: "get_fetchers_loop env a pre h0 t = (Inr (), h1, t1)"
    and f: "find_module env (str_split spec CHR ''.'') t1 = (Inl e, t2)
           \<or> (\<exists>md. find_module env (str_split spec CHR ''.'') t1 = (Inr md, t2)
                \<and> getattr env md (last (str_split spec CHR ''.'')) = None \<and> e = AttributeError)"
  from f have "get_fetchers_loop env a (spec # post) h1 t1 = (Inl e, h1, t2)"
    by (auto simp: Let_def)
  with l have "get_fetchers_loop env a (pre @ spec # post) h0 t = (Inl e, h1, t2)"
    by (simp add: get_fetchers_loop_append)
  with n show "get_fetchers env (pre @ spec # post) h t = (Inl e, h1, t2)"
    by (simp add: get_fetchers_def)
next
  assume g: "get_fetchers env add_fetchers h t = (Inr r, h', t')"
  obtain a h0 where n: "new_list h (map Fn (builtin_fetchers env)) = (a, h0)"
    by (cases "new_list h (map Fn (builtin_fetchers env))")
  from g n obtain h2 self h3 where
    l: "get_fetchers_loop env a add_fetchers h0 t = (Inr (), h2, t')" and
    i: "MultipleFetcher_init h2 a = (self, h3)" and
    r: "r = a" "h' = list_append h3 a (Obj self)"
    by (auto simp: get_fetchers_def split: prod.splits sum.splits)
  from get_fetchers_loop_contents [OF l] obtain fs where
    fs: "length fs = length add_fetchers" "read_list h2 a = read_list h0 a @ map Fn fs"
      "next_addr h2 = next_addr h0"
    by blast
  from n have a: "a = next_addr h" "read_list h0 a = map Fn (builtin_fetchers env)"
    "next_addr h0 = Suc (next_addr h)"
    by (auto simp: new_list_def read_list_def)
  from i have "read_list h3 a = read_list h2 a"
    using a(1,3) fs(3)
    by (auto simp: MultipleFetcher_init_def new_list_def read_list_def Let_def)
  then show "length (read_list h' r) = length (builtin_fetchers env) + length add_fetchers + 1"
    using r fs(1,2) a(2) by (simp add: read_list_append)
qed

theorem registry_resolution_witness:
  "find_module files_env [''mymodule'', ''myloader''] Map.empty = (Inr ''mymodule'', Map.empty)
   \<and> find_module files_env [''script'', ''myloader''] [''/home/script.py'' \<mapsto> ''pass'']
       = (Inr ''script'', [''/home/script.py'' \<mapsto> ''pass''])
   \<and> find_module (files_env\<lparr>exec_file := (\<lambda>name path s. (Inl (OtherError ''called''), s))\<rparr>)
         [''mymodule'', ''myloader''] Map.empty = (Inr ''mymodule'', Map.empty)
   \<and> find_module files_env [''pkg'', ''missing'', ''loader''] Map.empty
       = (Inl ModuleNotFoundError, Map.empty)
   \<and> fst (get_fetchers files_env [''mymodule.myloader'', ''mymodule.nothing''] empty_heap Map.empty)
       = Inl AttributeError
   \<and> length (read_list
        (fst (snd (get_fetchers files_env [''mymodule.myloader''] empty_heap Map.empty))) 0) = 7"
proof -
  let ?fs = "[''/home/script.py'' \<mapsto> ''pass'']"
  let ?ef = "\<lambda>name path s. (Inl (OtherError ''called''), s :: string \<Rightarrow> string option)"
  have 1: "import_module files_env (str_join ''.'' (butlast [''mymodule'', ''myloader''])) Map.empty
      = (Inr ''mymodule'', Map.empty)"
    by (simp add: files_env_def)
  have 2: "import_module files_env (str_join ''.'' (butlast [''script'', ''myloader''])) ?fs
      = (Inl ModuleNotFoundError, ?fs) \<and> length [''script'', ''myloader''] = 2"
    by (simp add: files_env_def)
  have 3: "fst (import_module files_env (str_join ''.'' (butlast [''mymodule'', ''myloader'']))
      Map.empty) \<noteq> Inl ModuleNotFoundError"
    by (simp add: files_env_def)
  have 4: "import_module files_env (str_join ''.'' (butlast [''pkg'', ''missing'', ''loader'']))
      Map.empty = (Inl ModuleNotFoundError, Map.empty) \<and> length [''pkg'', ''missing'', ''loader''] \<noteq> 2"
    by (simp add: files_env_def)
  have c1: "find_module files_env [''mymodule'', ''myloader''] Map.empty = (Inr ''mymodule'', Map.empty)"
    using registry_resolution [where env = files_env and parts = "[''mymodule'', ''myloader'']"
        and s = Map.empty and m = "''mymodule''" and s' = Map.empty] 1
    by blast
  have c2: "find_module files_env [''script'', ''myloader''] ?fs = (Inr ''script'', ?fs)"
    using registry_resolution [where env = files_env and parts = "[''script'', ''myloader'']"
        and s = ?fs and s' = ?fs] 2
    by (simp add: files_env_def)
  have c3: "find_module (files_env\<lparr>exec_file := ?ef\<rparr>) [''mymodule'', ''myloader''] Map.empty
      = (Inr ''mymodule'', Map.empty)"
    using registry_resolution [where env = files_env and parts = "[''mymodule'', ''myloader'']"
        and s = Map.empty and ef = ?ef] 3 c1
    by simp
  have c4: "find_module files_env [''pkg'', ''missing'', ''loader''] Map.empty
       = (Inl ModuleNotFoundError, Map.empty)"
    using registry_resolution [where env = files_env and parts = "[''pkg'', ''missing'', ''loader'']"
        and s = Map.empty and s' = Map.empty] 4
    by blast
  let ?n = "new_list (empty_heap :: (string \<Rightarrow> string option) heap) (map Fn (builtin_fetchers files_env))"
  let ?l = "get_fetchers_loop files_env 0 [''mymodule.myloader''] (snd ?n) Map.empty"
  have 5: "?n = (0, snd ?n)"
    by (simp add: new_list_def empty_heap_def)
  have 6: "?l = (Inr (), fst (snd ?l), Map.empty)"
    by (simp add: find_module_def files_env_def)
  have 7: "\<exists>md. find_module files_env (str_split ''mymodule.nothing'' CHR ''.'') Map.empty
        = (Inr md, Map.empty)
      \<and> getattr files_env md (last (str_split ''mymodule.nothing'' CHR ''.'')) = None
      \<and> AttributeError = AttributeError"
    by (simp add: find_module_def files_env_def)
  have c5: "fst (get_fetchers files_env [''mymodule.myloader'', ''mymodule.nothing''] empty_heap Map.empty)
       = Inl AttributeError"
    using registry_resolution [where env = files_env and h = empty_heap and a = 0 and ?h0.0 = "snd ?n"
        and pre = "[''mymodule.myloader'']" and t = Map.empty and ?h1.0 = "fst (snd ?l)"
        and ?t1.0 = Map.empty and spec = "''mymodule.nothing''" and e = AttributeError
        and ?t2.0 = Map.empty and post = "[]"] 5 6 7
    by simp
  let ?g = "get_fetchers files_env [''mymodule.myloader''] (empty_heap :: (string \<Rightarrow> string option) heap) Map.empty"
  have 8: "?g = (Inr 0, fst (snd ?g), snd (snd ?g))"
    by (simp add: get_fetchers_def new_list_def empty_heap_def find_module_def files_env_def
        MultipleFetcher_init_def Let_def)
  have c6: "length (read_list (fst (snd ?g)) 0) = 7"
    using registry_resolution [where env = files_env and add_fetchers = "[''mymodule.myloader'']"
        and h = empty_heap and t = Map.empty and r = 0 and h' = "fst (snd ?g)" and t' = "snd (snd ?g)"] 8
    by (simp add: builtin_fetchers_def)
  from c1 c2 c3 c4 c5 c6 show ?thesis by blast
qed

section \<open>Properties of the loader list of the instance\<close>

lemma call_Fn: "call n json_loads h (Fn f) = f"
  by (cases n) simp_all

lemma map_call_Fn: "map (call n json_loads h) (map Fn fs) = fs"
  by (induction fs) (simp_all add: call_Fn)

lemma call_instance:
  assumes "fetchers_of h self = Some l" and "read_list h l = map Fn fs @ [Obj self]"
  shows "call n json_loads h (Obj self) = MultipleFetcher_call n json_loads fs"
proof (induction n)
  case 0
  show ?case by simp
next
  case (Suc n)
  have "map (call n json_loads h) (map Fn fs @ [Obj self])
      = fs @ [MultipleFetcher_call n json_loads fs]"
    unfolding map_append map_call_Fn by (simp add: Suc.IH)
  then show ?case
    using assms by simp
qed

lemma MultipleFetcher_init_heap:
  assumes "fetchers < next_addr h" and "MultipleFetcher_init h fetchers = (self, h')"
  shows "self = next_addr h"
    and "fetchers_of h' self = Some (Suc (Suc (next_addr h)))"
    and "list_at h' (Suc (Suc (next_addr h))) = Some (read_list h fetchers @ [Obj self])"
    and "list_at h' fetchers = list_at h fetchers"
    and "next_addr h' = Suc (Suc (Suc (next_addr h)))"
  using assms
  by (auto simp: MultipleFetcher_init_def new_list_def read_list_def Let_def)


text \<open>
  C9 (snapshot of the loader list). \<^verbatim>\<open>MultipleFetcher(fetchers)\<close> stores a new list
  object, whose elements are those of the given list followed by the instance. Whatever is
  written into the given list object afterwards, the list of the instance stays as it is,
  and when the given list held functions, the instance behaves as \<open>MultipleFetcher_call\<close>
  over them. For \<^verbatim>\<open>get_fetchers\<close>, the list of the instance is a different object from
  the returned list with the same elements: the built-in loaders first, the instance last.
\<close>

theorem loader_list_snapshot:
  "(fetchers < next_addr h \<and> MultipleFetcher_init h fetchers = (self, h') \<longrightarrow>
      (\<exists>l. fetchers_of h' self = Some l \<and> l \<noteq> fetchers
         \<and> read_list h' l = read_list h fetchers @ [Obj self]
         \<and> (\<forall>ys. read_list (h'\<lparr>list_at := (list_at h')(fetchers \<mapsto> ys)\<rparr>) l
               = read_list h fetchers @ [Obj self])
         \<and> (\<forall>v. read_list (list_append h' fetchers v) l = read_list h fetchers @ [Obj self])
         \<and> (\<forall>fs ys n json_loads. read_list h fetchers = map Fn fs \<longrightarrow>
               call n json_loads (h'\<lparr>list_at := (list_at h')(fetchers \<mapsto> ys)\<rparr>) (Obj self)
                 = MultipleFetcher_call n json_loads fs)))
   \<and> (get_fetchers env add_fetchers g t = (Inr r, g', t') \<longrightarrow>
      (\<exists>self l fs. fetchers_of g' self = Some l \<and> l \<noteq> r
         \<and> read_list g' r = map Fn fs @ [Obj self]
         \<and> read_list g' l = read_list g' r
         \<and> take (length (builtin_fetchers env)) fs = builtin_fetchers env
         \<and> (\<forall>n json_loads. map (call n json_loads g') (read_list g' r)
               = MultipleFetcher_fetchers n json_loads fs)))"
proof (intro conjI impI; (elim conjE)?)
  assume a: "fetchers < next_addr h" "MultipleFetcher_init h fetchers = (self, h')"
  note i = MultipleFetcher_init_heap [OF a]
  let ?l = "Suc (Suc (next_addr h))"
  have ne: "?l \<noteq> fetchers" using a(1) by simp
  have 1: "read_list h' ?l = read_list h fetchers @ [Obj self]"
    using i(3) by (simp add: read_list_def)
  have 2: "read_list (h'\<lparr>list_at := (list_at h')(fetchers \<mapsto> ys)\<rparr>) ?l
      = read_list h fetchers @ [Obj self]" for ys
    using i(3) ne by (simp add: read_list_def)
  have 3: "read_list (list_append h' fetchers v) ?l = read_list h fetchers @ [Obj self]" for v
    using i(3) ne by (simp add: read_list_def list_append_def)
  have 4: "call n json_loads (h'\<lparr>list_at := (list_at h')(fetchers \<mapsto> ys)\<rparr>) (Obj self)
      = MultipleFetcher_call n json_loads fs"
    if "read_list h fetchers = map Fn fs" for fs ys n json_loads
  proof (rule call_instance)
    show "fetchers_of (h'\<lparr>list_at := (list_at h')(fetchers \<mapsto> ys)\<rparr>) self = Some ?l"
      using i(2) by simp
    show "read_list (h'\<lparr>list_at := (list_at h')(fetchers \<mapsto> ys)\<rparr>) ?l = map Fn fs @ [Obj self]"
      using 2 that by simp
  qed
  from i(2) ne 1 2 3 4
  show "\<exists>l. fetchers_of h' self = Some l \<and> l \<noteq> fetchers
         \<and> read_list h' l = read_list h fetchers @ [Obj self]
         \<and> (\<forall>ys. read_list (h'\<lparr>list_at := (list_at h')(fetchers \<mapsto> ys)\<rparr>) l
               = read_list h fetchers @ [Obj self])
         \<and> (\<forall>v. read_list (list_append h' fetchers v) l = read_list h fetchers @ [Obj self])
         \<and> (\<forall>fs ys n json_loads. read_list h fetchers = map Fn fs \<longrightarrow>
               call n json_loads (h'\<lparr>list_at := (list_at h')(fetchers \<mapsto> ys)\<rparr>) (Obj self)
                 = MultipleFetcher_call n json_loads fs)"
    by blast
next
  assume g: "get_fetchers env add_fetchers g t = (Inr r, g', t')"
  obtain a h0 where n: "new_list g (map Fn (builtin_fetchers env)) = (a, h0)"
    by (cases "new_list g (map Fn (builtin_fetchers env))")
  from g n obtain h2 self h3 where
    l: "get_fetchers_loop env a add_fetchers h0 t = (Inr (), h2, t')" and
    i: "MultipleFetcher_init h2 a = (self, h3)" and
    r: "r = a" "g' = list_append h3 a (Obj self)"
    by (auto simp: get_fetchers_def split: prod.splits sum.splits)
  from get_fetchers_loop_contents [OF l] obtain us where
    us: "read_list h2 a = read_list h0 a @ map Fn us" "next_addr h2 = next_addr h0"
    by blast
  from n have a: "a = next_addr g" "read_list h0 a = map Fn (builtin_fetchers env)"
    "next_addr h0 = Suc (next_addr g)"
    by (auto simp: new_list_def read_list_def)
  let ?fs = "builtin_fetchers env @ us"
  have c: "read_list h2 a = map Fn ?fs"
    using us(1) a(2) by simp
  have lt: "a < next_addr h2"
    using a(1,3) us(2) by simp
  note m = MultipleFetcher_init_heap [OF lt i]
  let ?l = "Suc (Suc (next_addr h2))"
  have ne: "?l \<noteq> r" using lt r(1) by simp
  have 1: "fetchers_of g' self = Some ?l"
    using m(2) r(2) by (simp add: list_append_def)
  have "read_list h3 a = read_list h2 a"
    using m(4) by (simp add: read_list_def)
  then have 2: "read_list g' r = map Fn ?fs @ [Obj self]"
    using r c by (simp add: read_list_append)
  have 3: "read_list g' ?l = map Fn ?fs @ [Obj self]"
    using m(3) ne r c by (simp add: read_list_def list_append_def)
  have 4: "map (call n json_loads g') (read_list g' r) = MultipleFetcher_fetchers n json_loads ?fs"
    for n json_loads
    using call_instance [OF 1 3, of n json_loads]
    unfolding 2 MultipleFetcher_fetchers_def map_append map_call_Fn
    by simp
  have 5: "take (length (builtin_fetchers env)) ?fs = builtin_fetchers env"
    by simp
  from 1 ne 2 3 4 5
  show "\<exists>self l fs. fetchers_of g' self = Some l \<and> l \<noteq> r
         \<and> read_list g' r = map Fn fs @ [Obj self]
         \<and> read_list g' l = read_list g' r
         \<and> take (length (builtin_fetchers env)) fs = builtin_fetchers env
         \<and> (\<forall>n json_loads. map (call n json_loads g') (read_list g' r)
               = MultipleFetcher_fetchers n json_loads fs)"
    by (intro exI [of _ self] exI [of _ ?l] exI [of _ ?fs]) simp
qed

theorem loader_list_snapshot_witness:
  "(\<exists>l. fetchers_of heap_mf 1 = Some l \<and> l \<noteq> 0
       \<and> read_list (list_append heap_mf 0 (Fn (stub ''late'' (\<lambda>u. Inr sample_xp)))) l
          = map Fn loaders @ [Obj 1]
       \<and> call (Suc 0) payloads (heap_mf\<lparr>list_at := (list_at heap_mf)(0 \<mapsto> [])\<rparr>) (Obj 1)
          = MultipleFetcher_call (Suc 0) payloads loaders)
   \<and> (\<exists>self l fs.
         fetchers_of (fst (snd registry)) self = Some l \<and> l \<noteq> 0
       \<and> read_list (fst (snd registry)) 0 = map Fn fs @ [Obj self]
       \<and> read_list (fst (snd registry)) l = read_list (fst (snd registry)) 0
       \<and> take (length (builtin_fetchers files_env)) fs = builtin_fetchers files_env)"
proof -
  have 1: "0 < next_addr heap_two"
    by (simp add: heap_two_def new_list_def empty_heap_def)
  have "fst (MultipleFetcher_init heap_two 0) = 1"
    by (simp add: MultipleFetcher_init_def heap_two_def new_list_def empty_heap_def Let_def
        split: prod.splits)
  then have 2: "MultipleFetcher_init heap_two 0 = (1, heap_mf)"
    unfolding heap_mf_def by (metis prod.collapse)
  have 3: "read_list heap_two 0 = map Fn loaders"
    by (simp add: heap_two_def new_list_def read_list_def empty_heap_def)
  have A: "\<exists>l. fetchers_of heap_mf 1 = Some l \<and> l \<noteq> 0
         \<and> read_list heap_mf l = read_list heap_two 0 @ [Obj 1]
         \<and> (\<forall>ys. read_list (heap_mf\<lparr>list_at := (list_at heap_mf)(0 \<mapsto> ys)\<rparr>) l
               = read_list heap_two 0 @ [Obj 1])
         \<and> (\<forall>v. read_list (list_append heap_mf 0 v) l = read_list heap_two 0 @ [Obj 1])
         \<and> (\<forall>fs ys n json_loads. read_list heap_two 0 = map Fn fs \<longrightarrow>
               call n json_loads (heap_mf\<lparr>list_at := (list_at heap_mf)(0 \<mapsto> ys)\<rparr>) (Obj 1)
                 = MultipleFetcher_call n json_loads fs)"
    using loader_list_snapshot [where fetchers = 0 and h = heap_two and self = 1 and h' = heap_mf,
        THEN conjunct1] 1 2
    by (rule mp [OF _ conjI])
  then obtain l where l: "fetchers_of heap_mf 1 = Some l" "l \<noteq> 0"
    "\<And>v. read_list (list_append heap_mf 0 v) l = read_list heap_two 0 @ [Obj 1]"
    "\<And>fs ys n json_loads. read_list heap_two 0 = map Fn fs \<Longrightarrow>
       call n json_loads (heap_mf\<lparr>list_at := (list_at heap_mf)(0 \<mapsto> ys)\<rparr>) (Obj 1)
         = MultipleFetcher_call n json_loads fs"
    by (elim exE conjE) (rule that, assumption+, simp, simp)
  have a: "read_list (list_append heap_mf 0 (Fn (stub ''late'' (\<lambda>u. Inr sample_xp)))) l
      = map Fn loaders @ [Obj 1]"
    using l(3) [of "Fn (stub ''late'' (\<lambda>u. Inr sample_xp))"] 3 by simp
  have b: "call (Suc 0) payloads (heap_mf\<lparr>list_at := (list_at heap_mf)(0 \<mapsto> [])\<rparr>) (Obj 1)
      = MultipleFetcher_call (Suc 0) payloads loaders"
    using 3 by (rule l(4))
  have first: "\<exists>l. fetchers_of heap_mf 1 = Some l \<and> l \<noteq> 0
       \<and> read_list (list_append heap_mf 0 (Fn (stub ''late'' (\<lambda>u. Inr sample_xp)))) l
          = map Fn loaders @ [Obj 1]
       \<and> call (Suc 0) payloads (heap_mf\<lparr>list_at := (list_at heap_mf)(0 \<mapsto> [])\<rparr>) (Obj 1)
          = MultipleFetcher_call (Suc 0) payloads loaders"
    using l(1,2) a b by (intro exI [of _ l] conjI)
  have "fst registry = Inr 0"
    by (simp add: registry_def get_fetchers_def new_list_def empty_heap_def find_module_def
        files_env_def MultipleFetcher_init_def Let_def)
  then have 4: "get_fetchers files_env [''mymodule.myloader''] empty_heap Map.empty
      = (Inr 0, fst (snd registry), snd (snd registry))"
    unfolding registry_def by (metis prod.collapse)
  have B: "\<exists>self l fs. fetchers_of (fst (snd registry)) self = Some l \<and> l \<noteq> 0
         \<and> read_list (fst (snd registry)) 0 = map Fn fs @ [Obj self]
         \<and> read_list (fst (snd registry)) l = read_list (fst (snd registry)) 0
         \<and> take (length (builtin_fetchers files_env)) fs = builtin_fetchers files_env
         \<and> (\<forall>n json_loads. map (call n json_loads (fst (snd registry))) (read_list (fst (snd registry)) 0)
               = MultipleFetcher_fetchers n json_loads fs)"
    using loader_list_snapshot [where env = files_env and add_fetchers = "[''mymodule.myloader'']"
      and g = empty_heap and t = Map.empty and r = 0 and g' = "fst (snd registry)"
      and t' = "snd (snd registry)", THEN conjunct2] 4
    by (rule mp)
  then have second: "\<exists>self l fs. fetchers_of (fst (snd registry)) self = Some l \<and> l \<noteq> 0
       \<and> read_list (fst (snd registry)) 0 = map Fn fs @ [Obj self]
       \<and> read_list (fst (snd registry)) l = read_list (fst (snd registry)) 0
       \<and> take (length (builtin_fetchers files_env)) fs = builtin_fetchers files_env"
    by (elim exE conjE) (intro exI conjI, assumption+)
  from first second show ?thesis by (rule conjI)
qed

end
